theory Spec2Isabelle
  imports Main
begin

section \<open>Text primitives of the interpreter\<close>

text \<open>
  Python strings are sequences of code points. They are modelled as \<open>string\<close>, each
  \<open>char\<close> standing for the code point of the same number, so the model covers the
  texts whose code points are below 256. The character classes below are the ones
  Python uses on that range.
\<close>

definition nl :: char where
  "nl = CHR 0x0A"

definition isspace :: "char \<Rightarrow> bool" where
  \<comment> \<open>\<open>str.isspace\<close>, the class removed by \<open>str.strip()\<close> and matched by \<open>\s\<close>\<close>
  "isspace c = (c \<in> set [CHR 0x09, CHR 0x0A, CHR 0x0B, CHR 0x0C, CHR 0x0D,
                          CHR 0x1C, CHR 0x1D, CHR 0x1E, CHR 0x1F, CHR 0x20,
                          CHR 0x85, CHR 0xA0])"

definition isdecimal :: "char \<Rightarrow> bool" where
  \<comment> \<open>the decimal digits: what \<open>\d\<close> matches and what \<open>int()\<close> accepts\<close>
  "isdecimal c = (c \<in> set ''0123456789'')"

definition isdigit_char :: "char \<Rightarrow> bool" where
  \<comment> \<open>\<open>str.isdigit\<close> also accepts the superscript digits U+00B2, U+00B3, U+00B9\<close>
  "isdigit_char c = (isdecimal c \<or> c \<in> set [CHR 0xB2, CHR 0xB3, CHR 0xB9])"

definition isdigit :: "string \<Rightarrow> bool" where
  "isdigit s = (s \<noteq> [] \<and> list_all isdigit_char s)"

definition strip :: "string \<Rightarrow> string" where
  "strip s = rev (dropWhile isspace (rev (dropWhile isspace s)))"

primrec split_on :: "char \<Rightarrow> string \<Rightarrow> string list" where
  "split_on sep [] = [[]]"
| "split_on sep (c # cs) =
     (if c = sep then [] # split_on sep cs
      else (c # hd (split_on sep cs)) # tl (split_on sep cs))"

definition digit_value :: "char \<Rightarrow> nat" where
  "digit_value c = of_char c - 48"

definition nat_of_decimal :: "string \<Rightarrow> nat" where
  "nat_of_decimal s = foldl (\<lambda>acc c. 10 * acc + digit_value c) 0 s"

fun str_nat :: "nat \<Rightarrow> string" where
  "str_nat n =
     (if n < 10 then [char_of (48 + n)]
      else str_nat (n div 10) @ [char_of (48 + n mod 10)])"

definition str_int :: "int \<Rightarrow> string" where
  \<comment> \<open>\<open>str(i)\<close> of a Python integer\<close>
  "str_int i = (if i < 0 then CHR ''-'' # str_nat (nat (- i)) else str_nat (nat i))"

datatype error =
    AttributeError | ValueError | IndexError | KeyError | OverflowError | UnboundLocalError
  | BadZipFile | ParseError | RequestException | TimeoutError | PageError

definition bindE :: "error + 'a \<Rightarrow> ('a \<Rightarrow> error + 'b) \<Rightarrow> error + 'b" where
  "bindE m f = (case m of Inl e \<Rightarrow> Inl e | Inr x \<Rightarrow> f x)"

text \<open>
  Since CPython 3.11 the conversions between \<open>int\<close> and decimal text raise
  \<open>ValueError\<close> when the text has more than \<open>sys.get_int_max_str_digits()\<close> digits,
  4300 unless the interpreter is configured otherwise. \<open>py_int\<close> is \<open>int(s)\<close> for a
  text without sign, blanks and underscores (the only texts the program converts, as
  they have passed \<open>isdigit\<close>); \<open>py_str\<close> is \<open>str(i)\<close>, which is also how an f-string
  renders an integer.
\<close>

definition int_max_str_digits :: nat where
  "int_max_str_digits = 4300"

definition py_int :: "string \<Rightarrow> error + int" where
  "py_int s =
     (if \<not> list_all isdecimal s then Inl ValueError
      else if length s > int_max_str_digits then Inl ValueError
      else Inr (int (nat_of_decimal s)))"

definition py_str :: "int \<Rightarrow> error + string" where
  "py_str i =
     (if length (str_nat (nat \<bar>i\<bar>)) > int_max_str_digits then Inl ValueError
      else Inr (str_int i))"

section \<open>Player records\<close>

text \<open>
  The dictionary built for every roster row. The first nine keys are always present;
  \<open>_full_profile_url\<close> is deleted before the output is written, and the four
  \<open>fide_*\<close> keys exist only once they have been assigned, so these are options.
\<close>

record player =
  name :: string
  profile_url :: string
  current_rating :: string
  rating_change :: string
  games_played :: string
  title :: string
  country :: string
  birthday :: string
  gender :: string
  full_profile_url :: "string option"
  fide_id :: "string option"
  fide_rating :: "string option"
  fide_games :: "string option"
  fide_change :: "string option"

section \<open>Profile text parsing\<close>

text \<open>
  What the scraper reads from one profile page: whether \<open>page.goto\<close> and the wait for a
  table succeeded, the inner text of the cell holding \<open>#Gespeeld\<close>, the inner text of the
  cell holding \<open>Berekening\<close>, and the \<open>href\<close> of the link to the federation profile.
\<close>

record profile_page =
  goto_ok :: bool
  table_ok :: bool
  games_cell :: "string option"
  calc_cell :: "string option"
  fide_link :: "string option"

definition parse_games_played :: "string option \<Rightarrow> player \<Rightarrow> player" where
  "parse_games_played cell p =
     (case cell of
        None \<Rightarrow> p
      | Some text \<Rightarrow>
          if nl \<in> set text then p\<lparr>games_played := strip (last (split_on nl text))\<rparr>
          else p)"

text \<open>
  The search \<open>re.search(r'([+-])\s?(\d+)$', text.strip())\<close>. A match starts at a sign;
  \<open>\s?\<close> first tries to take one white-space character and falls back to taking none;
  \<open>\d+\<close> is greedy, and giving digits back cannot help, because \<open>$\<close> does not hold
  in front of a digit; \<open>$\<close> holds at the end of the text and in front of a final line
  break. The search returns the match of the leftmost start position.
\<close>

definition at_end :: "string \<Rightarrow> bool" where
  "at_end r = (r = [] \<or> r = [nl])"

definition digits_then_end :: "string \<Rightarrow> string option" where
  "digits_then_end r =
     (let val = takeWhile isdecimal r
      in if val \<noteq> [] \<and> at_end (dropWhile isdecimal r) then Some val else None)"

fun match_change_at :: "string \<Rightarrow> (char \<times> string) option" where
  "match_change_at [] = None"
| "match_change_at (sign # r) =
     (if sign = CHR ''+'' \<or> sign = CHR ''-'' then
        (case (case r of [] \<Rightarrow> None
                       | w # r' \<Rightarrow> if isspace w then digits_then_end r' else None) of
           Some val \<Rightarrow> Some (sign, val)
         | None \<Rightarrow> map_option (Pair sign) (digits_then_end r))
      else None)"

fun search_change :: "string \<Rightarrow> (char \<times> string) option" where
  "search_change [] = None"
| "search_change (c # r) =
     (case match_change_at (c # r) of
        Some m \<Rightarrow> Some m
      | None \<Rightarrow> search_change r)"

definition parse_rating_change :: "string option \<Rightarrow> player \<Rightarrow> player" where
  "parse_rating_change cell p =
     (case cell of
        None \<Rightarrow> p
      | Some text \<Rightarrow>
          (case search_change (strip text) of
             Some (sign, val) \<Rightarrow>
               if sign = CHR ''+'' then p\<lparr>rating_change := val\<rparr>
               else p\<lparr>rating_change := CHR ''-'' # val\<rparr>
           | None \<Rightarrow> if CHR ''='' \<in> set text then p else p))"

text \<open>
  The inner \<open>try\<close> block: the games cell is read before the calculation cell, and a
  time-out of the wait for a table skips both. The first component is the exception the
  block's handler logs, if any.
\<close>

definition knsb_stats :: "profile_page \<Rightarrow> player \<Rightarrow> error option \<times> player" where
  "knsb_stats pg p =
     (if \<not> table_ok pg then (Some TimeoutError, p)
      else (None, parse_rating_change (calc_cell pg) (parse_games_played (games_cell pg) p)))"

section \<open>Federation snapshots\<close>

record fide_record =
  rating :: int
  games :: int
  rec_title :: string
  rec_country :: string
  rec_birthday :: string

type_synonym snapshot = "string \<rightharpoonup> fide_record"

definition startswith :: "string \<Rightarrow> string \<Rightarrow> bool" where
  "startswith s pre = (take (length pre) s = pre)"

definition endswith :: "string \<Rightarrow> string \<Rightarrow> bool" where
  "endswith s suf = (length suf \<le> length s \<and> drop (length s - length suf) s = suf)"

text \<open>
  An element of the parsed XML tree: its tag, its text (\<open>None\<close> for an element without
  character data) and its child elements. \<open>find\<close> returns the first child with a tag,
  \<open>findall\<close> all of them; reading \<open>.text\<close> of a missing child raises
  \<open>AttributeError\<close>.
\<close>

datatype element = Element (el_tag: string) (el_text: "string option") (el_children: "element list")

definition find_child :: "element \<Rightarrow> string \<Rightarrow> element option" where
  "find_child e t = List.find (\<lambda>c. el_tag c = t) (el_children e)"

definition findall :: "element \<Rightarrow> string \<Rightarrow> element list" where
  "findall e t = filter (\<lambda>c. el_tag c = t) (el_children e)"

definition child_text :: "element \<Rightarrow> string \<Rightarrow> error + string option" where
  "child_text e t =
     (case find_child e t of None \<Rightarrow> Inl AttributeError | Some c \<Rightarrow> Inr (el_text c))"

definition int_field :: "string option \<Rightarrow> error + int" where
  \<comment> \<open>\<open>int(x) if x and x.isdigit() else 0\<close>\<close>
  "int_field x =
     (case x of None \<Rightarrow> Inr 0 | Some s \<Rightarrow> if s \<noteq> [] \<and> isdigit s then py_int s else Inr 0)"

definition str_field :: "string option \<Rightarrow> string" where
  \<comment> \<open>\<open>x if x else ""\<close>\<close>
  "str_field x = (case x of None \<Rightarrow> [] | Some s \<Rightarrow> s)"

definition parse_player :: "element \<Rightarrow> snapshot \<Rightarrow> error + snapshot" where
  "parse_player player fide_data =
     bindE (child_text player ''fideid'') (\<lambda>fide_id.
     bindE (child_text player ''rating'') (\<lambda>rating_text.
     bindE (child_text player ''games'') (\<lambda>games_text.
     bindE (child_text player ''title'') (\<lambda>title_text.
     bindE (child_text player ''country'') (\<lambda>country_text.
     bindE (child_text player ''birthday'') (\<lambda>birthday_text.
       case fide_id of
         None \<Rightarrow> Inr fide_data
       | Some fid \<Rightarrow>
           if fid = [] then Inr fide_data
           else bindE (int_field rating_text) (\<lambda>r.
                bindE (int_field games_text) (\<lambda>g.
                  Inr (fide_data(fid \<mapsto>
                    \<lparr>rating = r, games = g,
                     rec_title = str_field title_text,
                     rec_country = str_field country_text,
                     rec_birthday = str_field birthday_text\<rparr>))))))))))"

fun parse_players :: "element list \<Rightarrow> snapshot \<Rightarrow> error + snapshot" where
  "parse_players [] fide_data = Inr fide_data"
| "parse_players (player # rest) fide_data =
     bindE (parse_player player fide_data) (parse_players rest)"

text \<open>
  What the download delivers: no response at all (the request raised), or a status code
  with a body that is either not a ZIP archive or a list of members, each of which is
  well-formed XML or not. Opening a member by name yields the last member of that name.
\<close>

datatype xml_file = Malformed | Document element

datatype archive = BadArchive | Archive "(string \<times> xml_file) list"

datatype response = NoResponse | Response int archive

definition parse_feed :: "response \<Rightarrow> error + snapshot" where
  "parse_feed resp =
     (case resp of
        NoResponse \<Rightarrow> Inl RequestException
      | Response status_code content \<Rightarrow>
          if status_code \<noteq> 200 then Inr Map.empty
          else (case content of
                  BadArchive \<Rightarrow> Inl BadZipFile
                | Archive members \<Rightarrow>
                    (case filter (\<lambda>nm. endswith nm ''.xml'') (map fst members) of
                       [] \<Rightarrow> Inl IndexError
                     | xml_filename # _ \<Rightarrow>
                         (case map_of (rev members) xml_filename of
                            None \<Rightarrow> Inl KeyError
                          | Some Malformed \<Rightarrow> Inl ParseError
                          | Some (Document root) \<Rightarrow>
                              parse_players (findall root ''player'') Map.empty))))"

definition download_and_parse_fide_xml :: "response \<Rightarrow> snapshot" where
  \<comment> \<open>the handler \<open>except Exception\<close> turns every exception into the empty dictionary\<close>
  "download_and_parse_fide_xml resp =
     (case parse_feed resp of Inl e \<Rightarrow> Map.empty | Inr fide_data \<Rightarrow> fide_data)"

text \<open>
  The conversion of a source value in the words of the specification: a numeric value (a
  text of one or more decimal digits) parses to that integer, any other or absent value
  coerces to 0.
\<close>

definition coerce_int :: "string option \<Rightarrow> int" where
  "coerce_int x =
     (case x of
        None \<Rightarrow> 0
      | Some s \<Rightarrow> if s \<noteq> [] \<and> list_all isdecimal s then int (nat_of_decimal s) else 0)"

section \<open>The address of the previous list\<close>

record date =
  year :: int
  month :: int
  day :: int

definition is_leap :: "int \<Rightarrow> bool" where
  "is_leap y = (y mod 4 = 0 \<and> (y mod 100 \<noteq> 0 \<or> y mod 400 = 0))"

definition days_in_month :: "int \<Rightarrow> int \<Rightarrow> int" where
  "days_in_month y m =
     (if m = 2 \<and> is_leap y then 29
      else [31, 28, 31, 30, 31, 30, 31, 31, 30, 31, 30, 31] ! nat (m - 1))"

definition valid_date :: "date \<Rightarrow> bool" where
  "valid_date d =
     (1 \<le> year d \<and> year d \<le> 9999 \<and> 1 \<le> month d \<and> month d \<le> 12 \<and>
      1 \<le> day d \<and> day d \<le> days_in_month (year d) (month d))"

definition minus_one_day :: "date \<Rightarrow> error + date" where
  \<comment> \<open>\<open>d - timedelta(days=1)\<close>: a day number of 0 is normalised into the month before, and a
      year below 1 raises \<open>OverflowError\<close>\<close>
  "minus_one_day d =
     (if day d > 1 then Inr (d\<lparr>day := day d - 1\<rparr>)
      else if month d > 1
        then Inr \<lparr>year = year d, month = month d - 1,
                  day = days_in_month (year d) (month d - 1)\<rparr>
      else if year d > 1 then Inr \<lparr>year = year d - 1, month = 12, day = 31\<rparr>
      else Inl OverflowError)"

definition strftime_b :: "date \<Rightarrow> string" where
  \<comment> \<open>\<open>%b\<close> in the C locale\<close>
  "strftime_b d =
     [''Jan'', ''Feb'', ''Mar'', ''Apr'', ''May'', ''Jun'',
      ''Jul'', ''Aug'', ''Sep'', ''Oct'', ''Nov'', ''Dec''] ! nat (month d - 1)"

definition two_digits :: "int \<Rightarrow> string" where
  "two_digits n = [char_of (48 + nat n div 10), char_of (48 + nat n mod 10)]"

definition strftime_y :: "date \<Rightarrow> string" where
  \<comment> \<open>\<open>%y\<close>: the year without the century, two digits\<close>
  "strftime_y d = two_digits (year d mod 100)"

definition lower_char :: "char \<Rightarrow> char" where
  "lower_char c =
     (let n = (of_char c :: nat)
      in if (65 \<le> n \<and> n \<le> 90) \<or> (192 \<le> n \<and> n \<le> 222 \<and> n \<noteq> 215) then char_of (n + 32) else c)"

definition lower :: "string \<Rightarrow> string" where
  "lower s = map lower_char s"

definition get_previous_period_url :: "date \<Rightarrow> error + string" where
  "get_previous_period_url today =
     (let first_of_month = today\<lparr>day := 1\<rparr>
      in bindE (minus_one_day first_of_month) (\<lambda>prev_month_date.
           let mon = lower (strftime_b prev_month_date);
               yy = strftime_y prev_month_date
           in Inr (''https://ratings.fide.com/download/standard_'' @ mon @ yy @ ''frl_xml.zip'')))"

text \<open>
  The same address from the words of the specification: the month before the current
  one, with the year stepping back when the current month is January.
\<close>

definition previous_period_tag :: "int \<Rightarrow> int \<Rightarrow> string" where
  "previous_period_tag y m =
     (let pm = (if m = 1 then 12 else m - 1);
          py = (if m = 1 then y - 1 else y)
      in [''jan'', ''feb'', ''mar'', ''apr'', ''may'', ''jun'',
          ''jul'', ''aug'', ''sep'', ''oct'', ''nov'', ''dec''] ! nat (pm - 1)
         @ two_digits (py mod 100))"

section \<open>Matching a player with the federation lists\<close>

text \<open>The search \<open>re.search(r'profile/(\d+)', fide_url)\<close>, leftmost match, greedy digits.\<close>

definition match_profile_at :: "string \<Rightarrow> string option" where
  "match_profile_at s =
     (if startswith s ''profile/'' \<and> takeWhile isdecimal (drop 8 s) \<noteq> []
      then Some (takeWhile isdecimal (drop 8 s)) else None)"

fun search_profile :: "string \<Rightarrow> string option" where
  "search_profile [] = None"
| "search_profile (c # r) =
     (case match_profile_at (c # r) of
        Some m \<Rightarrow> Some m
      | None \<Rightarrow> search_profile r)"

definition format_change :: "int \<Rightarrow> string" where
  \<comment> \<open>the text of \<open>f"+{change}" if change > 0 else str(change)\<close> when the conversion succeeds\<close>
  "format_change change = (if change > 0 then CHR ''+'' # str_int change else str_int change)"

text \<open>
  Lines 222 to 230. The \<open>else\<close> branch belongs to the test \<open>fide_id in prev_fide\<close>: a
  previous record whose rating is not positive assigns nothing.
\<close>

definition set_fide_change :: "fide_record \<Rightarrow> snapshot \<Rightarrow> string \<Rightarrow> player \<Rightarrow> error + player" where
  "set_fide_change curr_rec prev_fide fid p =
     (case prev_fide fid of
        Some prev_rec \<Rightarrow>
          (let prev_rating = rating prev_rec
           in if prev_rating > 0
              then (let change = rating curr_rec - prev_rating
                    in bindE (py_str change) (\<lambda>s.
                         Inr (p\<lparr>fide_change := Some (if change > 0 then CHR ''+'' # s else s)\<rparr>)))
              else Inr p)
      | None \<Rightarrow> Inr (p\<lparr>fide_change := Some ''0''\<rparr>))"

definition backfill :: "fide_record \<Rightarrow> player \<Rightarrow> player" where
  "backfill curr_rec p =
     (let p1 = (if title p = [] \<and> rec_title curr_rec \<noteq> []
                then p\<lparr>title := rec_title curr_rec\<rparr> else p);
          p2 = (if country p1 = [] \<and> rec_country curr_rec \<noteq> []
                then p1\<lparr>country := rec_country curr_rec\<rparr> else p1)
      in if birthday p2 = [] \<and> rec_birthday curr_rec \<noteq> []
         then p2\<lparr>birthday := rec_birthday curr_rec\<rparr> else p2)"

text \<open>
  Step 3 of the loop body, for an extracted identifier. Every assignment is one step: an
  exception leaves the dictionary as the assignments before it made it. The log line
  after the backfill reads \<open>player['fide_change']\<close>: when that key was never assigned
  the read raises \<open>KeyError\<close>. The first component is the exception that ends the loop
  body in its handler, if any.
\<close>

definition match_fide :: "snapshot \<Rightarrow> snapshot \<Rightarrow> string \<Rightarrow> player \<Rightarrow> error option \<times> player" where
  "match_fide current_fide prev_fide fid p =
     (let p1 = p\<lparr>fide_id := Some fid\<rparr>
      in case current_fide fid of
           None \<Rightarrow> (None, p1)
         | Some curr_rec \<Rightarrow>
             (case py_str (rating curr_rec) of
                Inl e \<Rightarrow> (Some e, p1)
              | Inr rating_str \<Rightarrow>
                  (let p2 = p1\<lparr>fide_rating := Some rating_str\<rparr>
                   in case py_str (games curr_rec) of
                        Inl e \<Rightarrow> (Some e, p2)
                      | Inr games_str \<Rightarrow>
                          (let p3 = p2\<lparr>fide_games := Some games_str\<rparr>
                           in case set_fide_change curr_rec prev_fide fid p3 of
                                Inl e \<Rightarrow> (Some e, p3)
                              | Inr p4 \<Rightarrow>
                                  (let p5 = backfill curr_rec p4
                                   in (if fide_change p5 = None then Some KeyError else None,
                                       p5))))))"

text \<open>
  The statement \<open>import re\<close> on line 185, inside the branch for the calculation cell,
  makes \<open>re\<close> a local name of \<open>scrape_ratings\<close>: the module imported at the top of the
  file is not visible in the function, and the local name is unbound until line 185 has
  run once, for this player or for one before. Until then \<open>re.search\<close> on line 210
  raises \<open>UnboundLocalError\<close>, which the handler of the loop body logs. The flag
  \<open>re_bound\<close> says whether the name is bound.
\<close>

definition import_re :: "profile_page \<Rightarrow> bool \<Rightarrow> bool" where
  \<comment> \<open>whether \<open>re\<close> is bound after the inner block of a page that was reached\<close>
  "import_re pg re_bound = (re_bound \<or> (table_ok pg \<and> calc_cell pg \<noteq> None))"

definition fide_step ::
  "snapshot \<Rightarrow> snapshot \<Rightarrow> bool \<Rightarrow> profile_page \<Rightarrow> player \<Rightarrow> error option \<times> player" where
  "fide_step current_fide prev_fide re_bound pg p =
     (case fide_link pg of
        None \<Rightarrow> (None, p)
      | Some fide_url \<Rightarrow>
          if \<not> re_bound then (Some UnboundLocalError, p)
          else (case search_profile fide_url of
                  None \<Rightarrow> (None, p)
                | Some fid \<Rightarrow> match_fide current_fide prev_fide fid p))"

text \<open>
  The body of the loop over the players, for a player and the binding state of \<open>re\<close>
  left by the players before. An exception of \<open>page.goto\<close> or of the federation step
  ends the body in the outer handler, which only logs; an exception of the inner block
  is logged there and the body goes on.
\<close>

definition process_player ::
  "snapshot \<Rightarrow> snapshot \<Rightarrow> bool \<Rightarrow> profile_page \<Rightarrow> player \<Rightarrow> player" where
  "process_player current_fide prev_fide re_bound pg p =
     (if \<not> goto_ok pg then p
      else snd (fide_step current_fide prev_fide (import_re pg re_bound) pg (snd (knsb_stats pg p))))"

definition re_bound_after :: "bool \<Rightarrow> profile_page \<Rightarrow> bool" where
  "re_bound_after re_bound pg = (if goto_ok pg then import_re pg re_bound else re_bound)"

section \<open>Roster rows and the whole run\<close>

record row =
  name_el :: "(string \<times> string option) option"
  rating_el :: "string option"
  title_el :: "string option"
  fed_el :: "string option"
  yob_el :: "string option"
  sex_el :: "string option"

definition cell_text :: "string option \<Rightarrow> string" where
  "cell_text el = (case el of None \<Rightarrow> [] | Some t \<Rightarrow> strip t)"

definition str_opt :: "string option \<Rightarrow> string" where
  \<comment> \<open>how an f-string renders an attribute that may be \<open>None\<close>\<close>
  "str_opt h = (case h of None \<Rightarrow> ''None'' | Some s \<Rightarrow> s)"

definition row_player :: "row \<Rightarrow> player option" where
  "row_player r =
     (case (name_el r, rating_el r) of
        (Some (nm, href), Some rt) \<Rightarrow>
          Some \<lparr>name = nm,
                profile_url = ''https://ratingviewer.nl'' @ str_opt href,
                current_rating = strip rt,
                rating_change = ''0'',
                games_played = ''0'',
                title = cell_text (title_el r),
                country = cell_text (fed_el r),
                birthday = cell_text (yob_el r),
                gender = cell_text (sex_el r),
                full_profile_url = Some (''https://ratingviewer.nl'' @ str_opt href),
                fide_id = None, fide_rating = None, fide_games = None, fide_change = None\<rparr>
      | _ \<Rightarrow> None)"

definition cleanup :: "player \<Rightarrow> player" where
  "cleanup p = p\<lparr>full_profile_url := None\<rparr>"

text \<open>
  The loop over the players, in roster order; \<open>site\<close> gives the page behind an address.
  The flag starts as unbound and is handed from one player to the next.
\<close>

fun enrich ::
  "snapshot \<Rightarrow> snapshot \<Rightarrow> (string \<Rightarrow> profile_page) \<Rightarrow> bool \<Rightarrow> player list \<Rightarrow> player list" where
  "enrich current_fide prev_fide site re_bound [] = []"
| "enrich current_fide prev_fide site re_bound (p # ps) =
     (case full_profile_url p of
        None \<Rightarrow> p # enrich current_fide prev_fide site re_bound ps
      | Some url \<Rightarrow>
          process_player current_fide prev_fide re_bound (site url) p
            # enrich current_fide prev_fide site (re_bound_after re_bound (site url)) ps)"

definition FIDE_XML_URL :: string where
  "FIDE_XML_URL = ''https://ratings.fide.com/download/standard_rating_list_xml.zip''"

text \<open>
  The run, from today's date, the answer of the federation's server to each address, the
  profile pages and the rows of the roster table, to the players written to the output
  file. An exception of \<open>get_previous_period_url\<close> is not caught and ends the run.
\<close>

definition scrape_ratings ::
  "date \<Rightarrow> (string \<Rightarrow> response) \<Rightarrow> (string \<Rightarrow> profile_page) \<Rightarrow> row list \<Rightarrow> error + player list" where
  "scrape_ratings today fetch site rows =
     (let current_fide = download_and_parse_fide_xml (fetch FIDE_XML_URL)
      in bindE (get_previous_period_url today) (\<lambda>prev_url.
           let prev_fide = download_and_parse_fide_xml (fetch prev_url);
               players = List.map_filter row_player rows
           in Inr (map cleanup (enrich current_fide prev_fide site False players))))"

section \<open>Sample data\<close>

definition example_row :: row where
  "example_row =
     \<lparr>name_el = Some (''Jan Smit'', Some ''/players/8001234''), rating_el = Some '' 1850 '',
      title_el = Some ''FM'', fed_el = Some '''', yob_el = None, sex_el = Some ''M''\<rparr>"

definition example_player :: player where
  "example_player =
     \<lparr>name = ''Jan Smit'',
      profile_url = ''https://ratingviewer.nl/players/8001234'',
      current_rating = ''1850'', rating_change = ''0'', games_played = ''0'',
      title = ''FM'', country = '''', birthday = '''', gender = ''M'',
      full_profile_url = Some ''https://ratingviewer.nl/players/8001234'',
      fide_id = None, fide_rating = None, fide_games = None, fide_change = None\<rparr>"

definition loaded_page :: "string option \<Rightarrow> string option \<Rightarrow> string option \<Rightarrow> profile_page" where
  "loaded_page g c l =
     \<lparr>goto_ok = True, table_ok = True, games_cell = g, calc_cell = c, fide_link = l\<rparr>"

definition example_record :: "int \<Rightarrow> fide_record" where
  "example_record r =
     \<lparr>rating = r, games = 5, rec_title = ''IM'', rec_country = ''NED'', rec_birthday = ''1990''\<rparr>"

definition example_link :: "string option" where
  "example_link = Some ''https://ratings.fide.com/profile/123''"

definition example_profile :: profile_page where
  "example_profile =
     loaded_page (Some (''#Gespeeld'' @ nl # ''5''))
       (Some (''Berekening'' @ [nl, nl] @ ''2702=2692 + 10'')) example_link"

definition example_entry :: "string option \<Rightarrow> string \<Rightarrow> element" where
  "example_entry fid rt =
     Element ''player'' None
       [Element ''fideid'' fid [], Element ''name'' (Some ''Smit, Jan'') [],
        Element ''country'' (Some ''NED'') [], Element ''title'' (Some ''IM'') [],
        Element ''rating'' (Some rt) [], Element ''games'' (Some ''5'') [],
        Element ''birthday'' (Some ''1990'') []]"

definition example_sparse_entry :: element where
  "example_sparse_entry =
     Element ''player'' None
       [Element ''fideid'' (Some ''456'') [], Element ''country'' None [],
        Element ''title'' None [], Element ''rating'' (Some ''2452'') [],
        Element ''games'' (Some ''n/a'') [], Element ''birthday'' None []]"

definition example_entry_without_fideid :: element where
  "example_entry_without_fideid =
     Element ''player'' None
       [Element ''name'' (Some ''Smit, Jan'') [],
        Element ''country'' (Some ''NED'') [], Element ''title'' (Some ''IM'') [],
        Element ''rating'' (Some ''2000'') [], Element ''games'' (Some ''5'') [],
        Element ''birthday'' (Some ''1990'') []]"

definition example_entry_without_birthday :: element where
  "example_entry_without_birthday =
     Element ''player'' None
       [Element ''fideid'' None [], Element ''name'' (Some ''Smit, Jan'') [],
        Element ''country'' (Some ''NED'') [], Element ''title'' (Some ''IM'') [],
        Element ''rating'' (Some ''2000'') [], Element ''games'' (Some ''5'') []]"

definition example_feed :: "element list \<Rightarrow> response" where
  "example_feed entries =
     Response 200 (Archive [(''standard_rating_list.xml'',
                             Document (Element ''playerslist'' None entries))])"

section \<open>Properties of the text primitives\<close>

lemma split_on_ne: "split_on sep s \<noteq> []"
  by (induction s) auto

lemma split_on_notin: "sep \<notin> set s \<Longrightarrow> split_on sep s = [s]"
  by (induction s) auto

lemma tl_split_on_ne: "tl (split_on sep (pre @ sep # suf)) \<noteq> []"
  by (induction pre) (auto simp: split_on_ne)

lemma last_split_on: "sep \<notin> set suf \<Longrightarrow> last (split_on sep (pre @ sep # suf)) = suf"
  by (induction pre) (auto simp: split_on_ne split_on_notin last_tl tl_split_on_ne)

lemma strip_all_space: "list_all isspace s \<Longrightarrow> strip s = []"
  unfolding strip_def by (induction s) auto

lemma dropWhile_hd: "s \<noteq> [] \<Longrightarrow> \<not> P (hd s) \<Longrightarrow> dropWhile P s = s"
  by (cases s) auto

lemma strip_id: "s \<noteq> [] \<Longrightarrow> \<not> isspace (hd s) \<Longrightarrow> \<not> isspace (last s) \<Longrightarrow> strip s = s"
  unfolding strip_def by (simp add: dropWhile_hd hd_rev)

lemma dropWhile_all: "list_all P xs \<Longrightarrow> dropWhile P (xs @ ys) = dropWhile P ys"
  by (induction xs) auto

lemma strip_shape:
  assumes "list_all isspace lead" and "list_all isspace trail"
    and "core = [] \<or> (\<not> isspace (hd core) \<and> \<not> isspace (last core))"
  shows "strip (lead @ core @ trail) = core"
proof (cases "core = []")
  case True
  then show ?thesis using assms(1,2) by (simp add: strip_all_space)
next
  case False
  with assms(3) have h: "\<not> isspace (hd core)" and l: "\<not> isspace (last core)" by auto
  have a: "dropWhile isspace (lead @ core @ trail) = core @ trail"
    using False h by (simp add: dropWhile_all [OF assms(1)] dropWhile_hd)
  have r: "list_all isspace (rev trail)" using assms(2) by (simp add: list_all_iff)
  have b: "dropWhile isspace (rev trail @ rev core) = rev core"
    using False l by (simp add: dropWhile_all [OF r] dropWhile_hd hd_rev)
  show ?thesis by (simp add: strip_def a b)
qed

lemma strip_decomp:
  "\<exists>lead trail. s = lead @ strip s @ trail \<and> list_all isspace lead \<and> list_all isspace trail"
proof -
  define d where "d = dropWhile isspace s"
  have s: "s = takeWhile isspace s @ d" by (simp add: d_def)
  have "rev (dropWhile isspace (rev d)) @ rev (takeWhile isspace (rev d)) =
          rev (takeWhile isspace (rev d) @ dropWhile isspace (rev d))"
    by (simp only: rev_append)
  also have "\<dots> = rev (rev d)" by (simp only: takeWhile_dropWhile_id)
  finally have d: "d = strip s @ rev (takeWhile isspace (rev d))"
    by (simp add: strip_def d_def)
  have l: "list_all isspace (takeWhile isspace s)"
    by (auto simp: list_all_iff dest: set_takeWhileD)
  have t: "list_all isspace (rev (takeWhile isspace (rev d)))"
    by (auto simp: list_all_iff dest: set_takeWhileD)
  from s d have "s = takeWhile isspace s @ strip s @ rev (takeWhile isspace (rev d))" by simp
  with l t show ?thesis by blast
qed

lemma games_played_rating_change [simp]:
  "games_played (parse_rating_change cell p) = games_played p"
  by (simp add: parse_rating_change_def split: option.splits prod.splits)

lemma rating_change_games [simp]:
  "rating_change (parse_games_played cell p) = rating_change p"
  by (simp add: parse_games_played_def split: option.splits)

lemma backfill_frame [simp]:
  "games_played (backfill rc p) = games_played p"
  "rating_change (backfill rc p) = rating_change p"
  "fide_id (backfill rc p) = fide_id p"
  "fide_rating (backfill rc p) = fide_rating p"
  "fide_games (backfill rc p) = fide_games p"
  "fide_change (backfill rc p) = fide_change p"
  by (simp_all add: backfill_def Let_def)

lemma set_fide_change_frame:
  assumes "set_fide_change rc prev fid p = Inr p'"
  shows "games_played p' = games_played p" and "rating_change p' = rating_change p"
    and "title p' = title p" and "country p' = country p" and "birthday p' = birthday p"
    and "fide_id p' = fide_id p" and "fide_rating p' = fide_rating p"
    and "fide_games p' = fide_games p"
  using assms
  by (auto simp: set_fide_change_def bindE_def Let_def split: option.splits sum.splits if_splits)

lemma match_fide_knsb_fields:
  "games_played (snd (match_fide cur prev fid p)) = games_played p \<and>
   rating_change (snd (match_fide cur prev fid p)) = rating_change p"
proof (cases "cur fid")
  case None
  then show ?thesis by (simp add: match_fide_def)
next
  case (Some rc)
  show ?thesis
  proof (cases "py_str (rating rc)")
    case (Inl e)
    then show ?thesis using Some by (simp add: match_fide_def)
  next
    case r: (Inr rs)
    show ?thesis
    proof (cases "py_str (games rc)")
      case (Inl e)
      then show ?thesis using Some r by (simp add: match_fide_def)
    next
      case g: (Inr gs)
      show ?thesis
      proof (cases "set_fide_change rc prev fid
                      (p\<lparr>fide_id := Some fid, fide_rating := Some rs, fide_games := Some gs\<rparr>)")
        case (Inl e)
        then show ?thesis using Some r g by (simp add: match_fide_def)
      next
        case (Inr p4)
        from set_fide_change_frame(1,2) [OF Inr] show ?thesis
          using Some r g Inr by (simp add: match_fide_def)
      qed
    qed
  qed
qed

lemma fide_step_knsb_fields:
  "games_played (snd (fide_step cur prev b pg p)) = games_played p \<and>
   rating_change (snd (fide_step cur prev b pg p)) = rating_change p"
  by (simp add: fide_step_def match_fide_knsb_fields split: option.splits)

lemma row_player_defaults:
  "row_player r = Some p \<Longrightarrow>
     games_played p = ''0'' \<and> rating_change p = ''0'' \<and> fide_id p = None \<and>
     fide_rating p = None \<and> fide_games p = None \<and> fide_change p = None"
  by (auto simp: row_player_def split: option.splits prod.splits)

lemma example_row_player: "row_player example_row = Some example_player"
  by (simp add: row_player_def example_row_def example_player_def cell_text_def str_opt_def
      strip_def isspace_def)

lemma games_played_process:
  assumes "goto_ok pg" and "table_ok pg" and "games_cell pg = Some games_text"
  shows "games_played (process_player current_fide prev_fide re_bound pg p) =
           (if nl \<in> set games_text then strip (last (split_on nl games_text)) else games_played p)"
  using assms
  by (simp add: process_player_def knsb_stats_def parse_games_played_def fide_step_knsb_fields)

section \<open>Games played\<close>

text \<open>
  C4. For a player made from a roster row whose profile page loaded, whatever the
  federation lists and the binding state of \<open>re\<close>: when the text of the games cell
  contains a line break, \<open>games_played\<close> becomes the text after the last line break
  without the white space at its two ends. The text after the last line break is
  written as \<open>lead @ core @ trail\<close>, where \<open>lead\<close> and \<open>trail\<close> are white space and
  \<open>core\<close> is empty or begins and ends with a character that is not white space; the
  value stored is \<open>core\<close>. When the text contains no line break, \<open>games_played\<close> keeps
  the default \<open>"0"\<close>.
\<close>

theorem games_played_after_last_line_break:
  assumes "row_player r = Some p" and "goto_ok pg" and "table_ok pg"
    and "games_cell pg = Some games_text"
  shows "(games_text = pre @ nl # lead @ core @ trail \<and> nl \<notin> set (lead @ core @ trail) \<and>
          list_all isspace lead \<and> list_all isspace trail \<and>
          (core = [] \<or> (\<not> isspace (hd core) \<and> \<not> isspace (last core))) \<longrightarrow>
            games_played (process_player current_fide prev_fide re_bound pg p) = core) \<and>
         (nl \<notin> set games_text \<longrightarrow>
            games_played (process_player current_fide prev_fide re_bound pg p) = ''0'')"
proof (intro conjI impI)
  assume a: "games_text = pre @ nl # lead @ core @ trail \<and> nl \<notin> set (lead @ core @ trail) \<and>
          list_all isspace lead \<and> list_all isspace trail \<and>
          (core = [] \<or> (\<not> isspace (hd core) \<and> \<not> isspace (last core)))"
  then have "last (split_on nl games_text) = lead @ core @ trail"
    using last_split_on [of nl "lead @ core @ trail" pre] by simp
  moreover have "strip (lead @ core @ trail) = core"
    using a by (intro strip_shape) auto
  ultimately show "games_played (process_player current_fide prev_fide re_bound pg p) = core"
    using games_played_process [OF assms(2-4)] a by simp
next
  assume "nl \<notin> set games_text"
  then show "games_played (process_player current_fide prev_fide re_bound pg p) = ''0''"
    using games_played_process [OF assms(2-4)] row_player_defaults [OF assms(1)] by simp
qed

theorem games_played_after_last_line_break_witness:
  "games_played (process_player Map.empty Map.empty False
      (loaded_page (Some (''#Gespeeld'' @ nl # ''5'')) None None) example_player) = ''5'' \<and>
   games_played (process_player Map.empty Map.empty False
      (loaded_page (Some (''#Gespeeld'' @ nl # ''12'' @ nl # ''  7 rapid '' @ [CHR 0x09])) None None)
      example_player) = ''7 rapid'' \<and>
   games_played (process_player Map.empty Map.empty False
      (loaded_page (Some ''#Gespeeld 5'') None None) example_player) = ''0''"
  using games_played_after_last_line_break [where r = example_row and p = example_player
      and pg = "loaded_page (Some (''#Gespeeld'' @ nl # ''5'')) None None"
      and games_text = "''#Gespeeld'' @ nl # ''5''" and pre = "''#Gespeeld''"
      and lead = "[]" and core = "''5''" and trail = "[]"
      and current_fide = Map.empty and prev_fide = Map.empty and re_bound = False]
    games_played_after_last_line_break [where r = example_row and p = example_player
      and pg = "loaded_page (Some (''#Gespeeld'' @ nl # ''12'' @ nl # ''  7 rapid '' @ [CHR 0x09])) None None"
      and games_text = "''#Gespeeld'' @ nl # ''12'' @ nl # ''  7 rapid '' @ [CHR 0x09]"
      and pre = "''#Gespeeld'' @ nl # ''12''"
      and lead = "''  ''" and core = "''7 rapid''" and trail = "'' '' @ [CHR 0x09]"
      and current_fide = Map.empty and prev_fide = Map.empty and re_bound = False]
    games_played_after_last_line_break [where r = example_row and p = example_player
      and pg = "loaded_page (Some ''#Gespeeld 5'') None None"
      and games_text = "''#Gespeeld 5''" and pre = "[]" and lead = "[]" and core = "[]"
      and trail = "[]"
      and current_fide = Map.empty and prev_fide = Map.empty and re_bound = False]
  by (simp add: example_row_player loaded_page_def nl_def isspace_def)

text \<open>
  C10. The text after the last line break is not checked to be a number: when it
  consists of white space only (or is empty) \<open>games_played\<close> becomes the empty text,
  replacing the default, and a text without white space at its ends is stored as it is,
  whatever its characters.
\<close>

theorem games_played_not_validated:
  assumes "row_player r = Some p" and "goto_ok pg" and "table_ok pg"
    and "games_cell pg = Some (pre @ nl # suf)" and "nl \<notin> set suf"
  shows "(list_all isspace suf \<longrightarrow>
            games_played (process_player current_fide prev_fide re_bound pg p) = []) \<and>
         (suf \<noteq> [] \<and> \<not> isspace (hd suf) \<and> \<not> isspace (last suf) \<longrightarrow>
            games_played (process_player current_fide prev_fide re_bound pg p) = suf)"
  using games_played_process [OF assms(2-4)] assms(5)
  by (auto simp: last_split_on strip_all_space strip_id)

theorem games_played_not_validated_witness:
  "games_played (process_player Map.empty Map.empty False
      (loaded_page (Some (''#Gespeeld'' @ nl # ''  '')) None None) example_player) = [] \<and>
   games_played (process_player Map.empty Map.empty False
      (loaded_page (Some (''#Gespeeld'' @ nl # ''n.v.t.'')) None None) example_player) = ''n.v.t.''"
  using games_played_not_validated [where r = example_row and p = example_player
      and pg = "loaded_page (Some (''#Gespeeld'' @ nl # ''  '')) None None"
      and pre = "''#Gespeeld''" and suf = "''  ''"
      and current_fide = Map.empty and prev_fide = Map.empty and re_bound = False]
    games_played_not_validated [where r = example_row and p = example_player
      and pg = "loaded_page (Some (''#Gespeeld'' @ nl # ''n.v.t.'')) None None"
      and pre = "''#Gespeeld''" and suf = "''n.v.t.''"
      and current_fide = Map.empty and prev_fide = Map.empty and re_bound = False]
  by (simp add: example_row_player loaded_page_def nl_def isspace_def)

section \<open>Rating change\<close>

lemma digits_then_end_all:
  "val \<noteq> [] \<Longrightarrow> list_all isdecimal val \<Longrightarrow> digits_then_end val = Some val"
proof -
  assume n: "val \<noteq> []" and a: "list_all isdecimal val"
  from a have tw: "takeWhile isdecimal val = val" and dw: "dropWhile isdecimal val = []"
    by (simp_all add: list_all_iff)
  show ?thesis using n by (simp add: digits_then_end_def at_end_def Let_def tw dw)
qed

lemma digits_then_end_blocked:
  assumes "c \<in> set r" and "\<not> isdecimal c" and "c \<noteq> nl"
  shows "digits_then_end r = None"
proof -
  have "set r = set (takeWhile isdecimal r) \<union> set (dropWhile isdecimal r)"
    by (metis set_append takeWhile_dropWhile_id)
  moreover have "c \<notin> set (takeWhile isdecimal r)"
    using assms(2) by (auto dest: set_takeWhileD)
  ultimately have "c \<in> set (dropWhile isdecimal r)" using assms(1) by blast
  moreover define d where "d = dropWhile isdecimal r"
  ultimately have "c \<in> set d" by simp
  then have "d \<noteq> [] \<and> d \<noteq> [nl]" using assms(3) by auto
  then have "\<not> at_end (dropWhile isdecimal r)" by (simp add: at_end_def d_def)
  then show ?thesis by (simp add: digits_then_end_def)
qed

lemma sign_chars: "c = CHR ''+'' \<or> c = CHR ''-'' \<Longrightarrow> \<not> isdecimal c \<and> \<not> isspace c \<and> c \<noteq> nl"
  by (auto simp: isdecimal_def isspace_def nl_def)

lemma space_not_decimal: "isspace w \<Longrightarrow> \<not> isdecimal w"
  by (auto simp: isdecimal_def isspace_def)

lemma match_change_at_here:
  assumes "sign = CHR ''+'' \<or> sign = CHR ''-''" and "sp = [] \<or> (sp = [w] \<and> isspace w)"
    and "val \<noteq> []" and "list_all isdecimal val"
  shows "match_change_at (sign # sp @ val) = Some (sign, val)"
proof -
  from assms(2) show ?thesis
  proof
    assume "sp = []"
    moreover have "\<not> isspace (hd val)"
      using assms(3,4) space_not_decimal by (cases val) auto
    ultimately show ?thesis
      using assms(1,3) digits_then_end_all [OF assms(3,4)] by (cases val) auto
  next
    assume "sp = [w] \<and> isspace w"
    then show ?thesis using assms(1) digits_then_end_all [OF assms(3,4)] by auto
  qed
qed

lemma match_change_at_blocked:
  assumes "s = CHR ''+'' \<or> s = CHR ''-''" and "s \<in> set r"
  shows "match_change_at (c # r) = None"
proof -
  note sc = sign_chars [OF assms(1)]
  have a: "digits_then_end r = None"
    using digits_then_end_blocked [OF assms(2)] sc by simp
  have b: "(case r of [] \<Rightarrow> None | w # r' \<Rightarrow> if isspace w then digits_then_end r' else None) = None"
  proof (cases r)
    case Nil then show ?thesis by simp
  next
    case (Cons w r')
    show ?thesis
    proof (cases "isspace w")
      case True
      then have "s \<in> set r'" using assms(2) Cons sc by auto
      then have "digits_then_end r' = None" using digits_then_end_blocked sc by simp
      then show ?thesis using Cons by simp
    next
      case False then show ?thesis using Cons by simp
    qed
  qed
  show ?thesis by (simp add: a b)
qed

lemma search_change_found:
  assumes "sign = CHR ''+'' \<or> sign = CHR ''-''" and "sp = [] \<or> (sp = [w] \<and> isspace w)"
    and "val \<noteq> []" and "list_all isdecimal val"
  shows "search_change (pre @ sign # sp @ val) = Some (sign, val)"
proof (induction pre)
  case Nil
  show ?case using match_change_at_here [OF assms] by simp
next
  case (Cons c pre)
  have "match_change_at (c # pre @ sign # sp @ val) = None"
    by (rule match_change_at_blocked [OF assms(1)]) simp
  then show ?case using Cons by simp
qed

lemma digits_then_end_SomeD:
  assumes "digits_then_end r = Some val"
  shows "val \<noteq> [] \<and> list_all isdecimal val \<and> (r = val \<or> r = val @ [nl])"
proof -
  from assms have v: "val = takeWhile isdecimal r" and n: "val \<noteq> []"
    and e: "at_end (dropWhile isdecimal r)"
    by (auto simp: digits_then_end_def Let_def split: if_splits)
  define d where "d = dropWhile isdecimal r"
  have "r = val @ d" by (simp add: v d_def)
  moreover have "d = [] \<or> d = [nl]" using e by (simp add: at_end_def d_def)
  moreover have "list_all isdecimal val" by (auto simp: v list_all_iff dest: set_takeWhileD)
  ultimately show ?thesis using n by auto
qed

lemma match_change_at_SomeD:
  assumes "match_change_at r = Some (sign, val)"
  shows "\<exists>sp tl. r = sign # sp @ val @ tl \<and> (sign = CHR ''+'' \<or> sign = CHR ''-'') \<and>
           (sp = [] \<or> (\<exists>w. sp = [w] \<and> isspace w)) \<and> val \<noteq> [] \<and> list_all isdecimal val \<and>
           (tl = [] \<or> tl = [nl])"
proof (cases r)
  case Nil with assms show ?thesis by simp
next
  case (Cons c r')
  with assms have s: "c = sign" "sign = CHR ''+'' \<or> sign = CHR ''-''"
    by (auto split: if_splits option.splits list.splits)
  from assms Cons s consider
      (sp) w r'' where "r' = w # r''" "isspace w" "digits_then_end r'' = Some val"
    | (nosp) "digits_then_end r' = Some val"
    by (auto split: if_splits option.splits list.splits)
  then show ?thesis
  proof cases
    case sp
    from digits_then_end_SomeD [OF sp(3)]
    have v: "val \<noteq> []" "list_all isdecimal val" and "r'' = val @ [] \<or> r'' = val @ [nl]"
      by auto
    then obtain tl where "r'' = val @ tl" "tl = [] \<or> tl = [nl]" by blast
    then show ?thesis
      using Cons s sp(1,2) v by (intro exI [of _ "[w]"] exI [of _ tl]) simp
  next
    case nosp
    from digits_then_end_SomeD [OF nosp]
    have v: "val \<noteq> []" "list_all isdecimal val" and "r' = val @ [] \<or> r' = val @ [nl]"
      by auto
    then obtain tl where "r' = val @ tl" "tl = [] \<or> tl = [nl]" by blast
    then show ?thesis
      using Cons s v by (intro exI [of _ "[]"] exI [of _ tl]) simp
  qed
qed

lemma search_change_SomeD:
  "search_change s = Some (sign, val) \<Longrightarrow> \<exists>pre r. s = pre @ r \<and> match_change_at r = Some (sign, val)"
proof (induction s)
  case Nil then show ?case by simp
next
  case (Cons c s)
  show ?case
  proof (cases "match_change_at (c # s)")
    case None
    with Cons obtain pre r where "s = pre @ r" "match_change_at r = Some (sign, val)"
      by (auto simp del: match_change_at.simps)
    then show ?thesis by (intro exI [of _ "c # pre"] exI [of _ r]) simp
  next
    case (Some m)
    with Cons.prems have "match_change_at (c # s) = Some (sign, val)"
      by (simp del: match_change_at.simps)
    then show ?thesis by (intro exI [of _ "[]"] exI [of _ "c # s"]) simp
  qed
qed

lemma strip_last: "strip s = [] \<or> \<not> isspace (last (strip s))"
proof -
  have "xs = [] \<or> \<not> P (hd (dropWhile P xs)) \<or> dropWhile P xs = []" for P and xs :: string
    by (metis hd_dropWhile)
  then show ?thesis
    unfolding strip_def
    by (metis hd_dropWhile last_rev rev_is_Nil_conv)
qed

lemma search_change_strip_SomeD:
  assumes "search_change (strip s) = Some (sign, val)"
  shows "\<exists>pre sp. strip s = pre @ sign # sp @ val \<and> (sign = CHR ''+'' \<or> sign = CHR ''-'') \<and>
           (sp = [] \<or> (\<exists>w. sp = [w] \<and> isspace w)) \<and> val \<noteq> [] \<and> list_all isdecimal val"
proof -
  from search_change_SomeD [OF assms] obtain pre r
    where r: "strip s = pre @ r" "match_change_at r = Some (sign, val)" by blast
  from match_change_at_SomeD [OF r(2)] obtain sp tl where
    d: "r = sign # sp @ val @ tl" "sign = CHR ''+'' \<or> sign = CHR ''-''"
       "sp = [] \<or> (\<exists>w. sp = [w] \<and> isspace w)" "val \<noteq> []" "list_all isdecimal val"
       "tl = [] \<or> tl = [nl]" by blast
  have "tl = []"
  proof (rule ccontr)
    assume "tl \<noteq> []"
    with d(6) have "tl = [nl]" by simp
    then have "last (strip s) = nl" using r(1) d(1) by simp
    moreover have "strip s \<noteq> []" using r(1) d(1) by simp
    ultimately show False using strip_last [of s] by (simp add: isspace_def nl_def)
  qed
  then show ?thesis using r(1) d by auto
qed


lemma signed_suffix_strip:
  assumes "sign = CHR ''+'' \<or> sign = CHR ''-''" and "val \<noteq> []" and "list_all isdecimal val"
    and "list_all isspace trail"
  shows "strip (body @ sign # sp @ val @ trail) = dropWhile isspace body @ sign # sp @ val"
proof -
  define D where "D = dropWhile isspace body"
  define core where "core = D @ sign # sp @ val"
  have h: "\<not> isspace (hd core)"
  proof (cases D)
    case Nil
    then show ?thesis using sign_chars [OF assms(1)] by (simp add: core_def)
  next
    case (Cons c cs)
    have "\<not> isspace (hd D)" unfolding D_def by (rule hd_dropWhile) (use Cons D_def in auto)
    then show ?thesis using Cons by (simp add: core_def)
  qed
  have "isdecimal (last val)" using assms(2,3) by (simp add: list_all_iff)
  then have l: "\<not> isspace (last core)"
    using assms(2) space_not_decimal by (auto simp: core_def)
  have t: "list_all isspace (takeWhile isspace body)"
    by (auto simp: list_all_iff dest: set_takeWhileD)
  have e: "takeWhile isspace body @ core @ trail = body @ sign # sp @ val @ trail"
  proof -
    have "takeWhile isspace body @ core @ trail =
            (takeWhile isspace body @ dropWhile isspace body) @ sign # sp @ val @ trail"
      by (simp add: core_def D_def)
    then show ?thesis by (simp only: takeWhile_dropWhile_id)
  qed
  have "strip (takeWhile isspace body @ core @ trail) = core"
    using t assms(4) h l by (intro strip_shape) auto
  then have "strip (body @ sign # sp @ val @ trail) = core" by (simp only: e)
  then show ?thesis by (simp only: core_def D_def)
qed

lemma search_change_signed_suffix:
  assumes "sign = CHR ''+'' \<or> sign = CHR ''-''" and "length sp \<le> 1" and "list_all isspace sp"
    and "val \<noteq> []" and "list_all isdecimal val" and "list_all isspace trail"
  shows "search_change (strip (body @ sign # sp @ val @ trail)) = Some (sign, val)"
proof -
  from assms(2,3) obtain w where "sp = [] \<or> (sp = [w] \<and> isspace w)"
    by (cases sp) auto
  from search_change_found [OF assms(1) this assms(4,5)] signed_suffix_strip [OF assms(1,4,5,6)]
  show ?thesis by simp
qed

lemma search_change_strip_shape:
  assumes "search_change (strip s) = Some (sign, val)"
  shows "\<exists>body sp trail. s = body @ sign # sp @ val @ trail \<and>
           (sign = CHR ''+'' \<or> sign = CHR ''-'') \<and> length sp \<le> 1 \<and> list_all isspace sp \<and>
           val \<noteq> [] \<and> list_all isdecimal val \<and> list_all isspace trail"
proof -
  from search_change_strip_SomeD [OF assms] obtain pre sp where
    d: "strip s = pre @ sign # sp @ val" "sign = CHR ''+'' \<or> sign = CHR ''-''"
       "sp = [] \<or> (\<exists>w. sp = [w] \<and> isspace w)" "val \<noteq> []" "list_all isdecimal val" by blast
  from strip_decomp [of s] obtain lead trail where
    s: "s = lead @ strip s @ trail" "list_all isspace trail" by blast
  from d(3) have sp: "length sp \<le> 1" "list_all isspace sp" by auto
  from s(1) d(1) have "s = (lead @ pre) @ sign # sp @ val @ trail" by simp
  with d(2,4,5) sp s(2) show ?thesis by blast
qed

lemma signed_suffix_iff:
  "(\<exists>body sign sp val trail. s = body @ sign # sp @ val @ trail \<and>
       (sign = CHR ''+'' \<or> sign = CHR ''-'') \<and> length sp \<le> 1 \<and> list_all isspace sp \<and>
       val \<noteq> [] \<and> list_all isdecimal val \<and> list_all isspace trail) =
   (search_change (strip s) \<noteq> None)"
proof
  assume "\<exists>body sign sp val trail. s = body @ sign # sp @ val @ trail \<and>
       (sign = CHR ''+'' \<or> sign = CHR ''-'') \<and> length sp \<le> 1 \<and> list_all isspace sp \<and>
       val \<noteq> [] \<and> list_all isdecimal val \<and> list_all isspace trail"
  then obtain body sign sp val trail where "s = body @ sign # sp @ val @ trail"
    "sign = CHR ''+'' \<or> sign = CHR ''-''" "length sp \<le> 1" "list_all isspace sp"
    "val \<noteq> []" "list_all isdecimal val" "list_all isspace trail" by blast
  then show "search_change (strip s) \<noteq> None"
    using search_change_signed_suffix [of sign sp val trail body] by simp
next
  assume "search_change (strip s) \<noteq> None"
  then obtain sign val where "search_change (strip s) = Some (sign, val)" by auto
  from search_change_strip_shape [OF this]
  show "\<exists>body sign sp val trail. s = body @ sign # sp @ val @ trail \<and>
       (sign = CHR ''+'' \<or> sign = CHR ''-'') \<and> length sp \<le> 1 \<and> list_all isspace sp \<and>
       val \<noteq> [] \<and> list_all isdecimal val \<and> list_all isspace trail" by blast
qed

lemma rating_change_process:
  assumes "goto_ok pg" and "table_ok pg" and "calc_cell pg = Some calc_text"
  shows "rating_change (process_player current_fide prev_fide re_bound pg p) =
           (case search_change (strip calc_text) of
              Some (sign, val) \<Rightarrow> if sign = CHR ''+'' then val else CHR ''-'' # val
            | None \<Rightarrow> rating_change p)"
  using assms
  by (simp add: process_player_def knsb_stats_def parse_rating_change_def fide_step_knsb_fields
      split: option.splits prod.splits)

text \<open>
  C3. For a player made from a roster row whose profile page loaded, whatever the
  federation lists and the binding state of \<open>re\<close>. The text of the calculation cell ends
  with a signed number when it is \<open>body @ sign # sp @ val @ trail\<close>, where \<open>sign\<close> is
  \<open>+\<close> or \<open>-\<close>, \<open>sp\<close> is nothing or one white-space character, \<open>val\<close> is one or more
  decimal digits and \<open>trail\<close> is the white space that stripping removes. Then
  \<open>rating_change\<close> becomes \<open>val\<close> for \<open>+\<close> and \<open>val\<close> with a leading \<open>-\<close> for \<open>-\<close>.
  When the text has no such ending (it ends with a number that has no sign, or with
  \<open>=\<close>, or with anything else), \<open>rating_change\<close> keeps the default \<open>"0"\<close>, and the inner
  block ends without an exception, leaving the player as the games cell left it.
\<close>

theorem rating_change_from_signed_suffix:
  assumes "row_player r = Some p" and "goto_ok pg" and "table_ok pg"
    and "calc_cell pg = Some calc_text"
  shows "(calc_text = body @ sign # sp @ val @ trail \<and> (sign = CHR ''+'' \<or> sign = CHR ''-'') \<and>
          length sp \<le> 1 \<and> list_all isspace sp \<and> val \<noteq> [] \<and> list_all isdecimal val \<and>
          list_all isspace trail \<longrightarrow>
            rating_change (process_player current_fide prev_fide re_bound pg p) =
              (if sign = CHR ''+'' then val else CHR ''-'' # val)) \<and>
         ((\<nexists>body sign sp val trail.
             calc_text = body @ sign # sp @ val @ trail \<and> (sign = CHR ''+'' \<or> sign = CHR ''-'') \<and>
             length sp \<le> 1 \<and> list_all isspace sp \<and> val \<noteq> [] \<and> list_all isdecimal val \<and>
             list_all isspace trail) \<longrightarrow>
            rating_change (process_player current_fide prev_fide re_bound pg p) = ''0'' \<and>
            knsb_stats pg p = (None, parse_games_played (games_cell pg) p))"
proof (intro conjI impI)
  assume a: "calc_text = body @ sign # sp @ val @ trail \<and> (sign = CHR ''+'' \<or> sign = CHR ''-'') \<and>
          length sp \<le> 1 \<and> list_all isspace sp \<and> val \<noteq> [] \<and> list_all isdecimal val \<and>
          list_all isspace trail"
  then have "search_change (strip calc_text) = Some (sign, val)"
    using search_change_signed_suffix [of sign sp val trail body] by simp
  then show "rating_change (process_player current_fide prev_fide re_bound pg p) =
              (if sign = CHR ''+'' then val else CHR ''-'' # val)"
    using rating_change_process [OF assms(2-4)] by simp
next
  assume "\<nexists>body sign sp val trail.
             calc_text = body @ sign # sp @ val @ trail \<and> (sign = CHR ''+'' \<or> sign = CHR ''-'') \<and>
             length sp \<le> 1 \<and> list_all isspace sp \<and> val \<noteq> [] \<and> list_all isdecimal val \<and>
             list_all isspace trail"
  then have "\<not> search_change (strip calc_text) \<noteq> None"
    unfolding signed_suffix_iff .
  then have n: "search_change (strip calc_text) = None" by blast
  from n show "rating_change (process_player current_fide prev_fide re_bound pg p) = ''0''"
    using rating_change_process [OF assms(2-4)] row_player_defaults [OF assms(1)] by simp
  from n show "knsb_stats pg p = (None, parse_games_played (games_cell pg) p)"
    using assms(3,4) by (simp add: knsb_stats_def parse_rating_change_def)
qed

lemma example_no_signed_suffix:
  "search_change (strip (''Berekening'' @ [nl, nl] @ ''2692='')) = None"
  "search_change (strip ''2702=2692 10'') = None"
  by (simp_all add: strip_def isspace_def nl_def isdecimal_def digits_then_end_def at_end_def)

theorem rating_change_from_signed_suffix_witness:
  "rating_change (process_player Map.empty Map.empty False
      (loaded_page None (Some (''Berekening'' @ [nl, nl] @ ''2702=2692 + 10'')) None)
      example_player) = ''10'' \<and>
   rating_change (process_player Map.empty Map.empty False
      (loaded_page None (Some (''Berekening'' @ [nl, nl] @ ''2687=2692 - 5 '' @ [nl])) None)
      example_player) = ''-5'' \<and>
   rating_change (process_player Map.empty Map.empty False
      (loaded_page None (Some (''2702=2692 +'' @ [CHR 0x09] @ ''10'')) None)
      example_player) = ''10'' \<and>
   rating_change (process_player Map.empty Map.empty False
      (loaded_page None (Some (''Berekening'' @ [nl, nl] @ ''2692='')) None)
      example_player) = ''0'' \<and>
   rating_change (process_player Map.empty Map.empty False
      (loaded_page None (Some ''2702=2692 10'') None)
      example_player) = ''0''"
proof -
  have d: "list_all isdecimal ''10''" "list_all isdecimal ''5''"
    by (simp_all add: isdecimal_def)
  have w: "list_all isspace '' ''" "list_all isspace ('' '' @ [nl])" "list_all isspace [CHR 0x09]"
    by (simp_all add: isspace_def nl_def)
  from rating_change_from_signed_suffix [where r = example_row and p = example_player
      and pg = "loaded_page None (Some (''Berekening'' @ [nl, nl] @ ''2702=2692 + 10'')) None"
      and calc_text = "''Berekening'' @ [nl, nl] @ ''2702=2692 + 10''"
      and body = "''Berekening'' @ [nl, nl] @ ''2702=2692 ''" and sign = "CHR ''+''"
      and sp = "'' ''" and val = "''10''" and trail = "[]"
      and current_fide = Map.empty and prev_fide = Map.empty and re_bound = False]
  have a: "rating_change (process_player Map.empty Map.empty False
      (loaded_page None (Some (''Berekening'' @ [nl, nl] @ ''2702=2692 + 10'')) None)
      example_player) = ''10''"
    using d(1) w(1) by (simp add: example_row_player loaded_page_def)
  from rating_change_from_signed_suffix [where r = example_row and p = example_player
      and pg = "loaded_page None (Some (''Berekening'' @ [nl, nl] @ ''2687=2692 - 5 '' @ [nl])) None"
      and calc_text = "''Berekening'' @ [nl, nl] @ ''2687=2692 - 5 '' @ [nl]"
      and body = "''Berekening'' @ [nl, nl] @ ''2687=2692 ''" and sign = "CHR ''-''"
      and sp = "'' ''" and val = "''5''" and trail = "'' '' @ [nl]"
      and current_fide = Map.empty and prev_fide = Map.empty and re_bound = False]
  have b: "rating_change (process_player Map.empty Map.empty False
      (loaded_page None (Some (''Berekening'' @ [nl, nl] @ ''2687=2692 - 5 '' @ [nl])) None)
      example_player) = ''-5''"
    using d(2) w(1,2) by (simp add: example_row_player loaded_page_def)
  from rating_change_from_signed_suffix [where r = example_row and p = example_player
      and pg = "loaded_page None (Some (''2702=2692 +'' @ [CHR 0x09] @ ''10'')) None"
      and calc_text = "''2702=2692 +'' @ [CHR 0x09] @ ''10''"
      and body = "''2702=2692 ''" and sign = "CHR ''+''"
      and sp = "[CHR 0x09]" and val = "''10''" and trail = "[]"
      and current_fide = Map.empty and prev_fide = Map.empty and re_bound = False]
  have c: "rating_change (process_player Map.empty Map.empty False
      (loaded_page None (Some (''2702=2692 +'' @ [CHR 0x09] @ ''10'')) None)
      example_player) = ''10''"
    using d(1) w(3) by (simp add: example_row_player loaded_page_def)
  from rating_change_from_signed_suffix [where r = example_row and p = example_player
      and pg = "loaded_page None (Some (''Berekening'' @ [nl, nl] @ ''2692='')) None"
      and calc_text = "''Berekening'' @ [nl, nl] @ ''2692=''"
      and current_fide = Map.empty and prev_fide = Map.empty and re_bound = False]
  have e: "rating_change (process_player Map.empty Map.empty False
      (loaded_page None (Some (''Berekening'' @ [nl, nl] @ ''2692='')) None)
      example_player) = ''0''"
    unfolding signed_suffix_iff
    using example_no_signed_suffix(1) by (simp add: example_row_player loaded_page_def)
  from rating_change_from_signed_suffix [where r = example_row and p = example_player
      and pg = "loaded_page None (Some ''2702=2692 10'') None"
      and calc_text = "''2702=2692 10''"
      and current_fide = Map.empty and prev_fide = Map.empty and re_bound = False]
  have f: "rating_change (process_player Map.empty Map.empty False
      (loaded_page None (Some ''2702=2692 10'') None)
      example_player) = ''0''"
    unfolding signed_suffix_iff
    using example_no_signed_suffix(2) by (simp add: example_row_player loaded_page_def)
  from a b c e f show ?thesis by simp
qed

section \<open>Properties of the federation list parser\<close>

lemma digit_value_le: "isdecimal c \<Longrightarrow> digit_value c \<le> 9"
  by (auto simp: isdecimal_def digit_value_def)

lemma foldl_decimal_bound:
  "list_all isdecimal s \<Longrightarrow>
     foldl (\<lambda>acc c. 10 * acc + digit_value c) a s + 1 \<le> (a + 1) * 10 ^ length s"
proof (induction s arbitrary: a)
  case Nil
  show ?case by simp
next
  case (Cons c s)
  have "foldl (\<lambda>acc c. 10 * acc + digit_value c) (10 * a + digit_value c) s + 1
          \<le> (10 * a + digit_value c + 1) * 10 ^ length s"
    using Cons by simp
  also have "\<dots> \<le> (10 * a + 10) * 10 ^ length s"
    using digit_value_le [of c] Cons.prems by (intro mult_le_mono1) simp
  also have "\<dots> = (a + 1) * 10 ^ length (c # s)" by (simp add: algebra_simps)
  finally show ?case by simp
qed

lemma nat_of_decimal_bound: "list_all isdecimal s \<Longrightarrow> nat_of_decimal s < 10 ^ length s"
  using foldl_decimal_bound [of s 0] by (simp add: nat_of_decimal_def)

lemma py_int_range:
  assumes "py_int s = Inr v"
  shows "0 \<le> v \<and> v < 10 ^ int_max_str_digits"
proof -
  from assms have d: "list_all isdecimal s" and l: "length s \<le> int_max_str_digits"
    and v: "v = int (nat_of_decimal s)"
    by (auto simp: py_int_def split: if_splits)
  have "nat_of_decimal s < 10 ^ length s" by (rule nat_of_decimal_bound [OF d])
  also have "\<dots> \<le> 10 ^ int_max_str_digits" using l by (intro power_increasing) simp_all
  finally have "int (nat_of_decimal s) < int (10 ^ int_max_str_digits)" by (simp only: of_nat_less_iff)
  then show ?thesis using v by simp
qed

lemma int_field_range:
  assumes "int_field x = Inr v"
  shows "0 \<le> v \<and> v < 10 ^ int_max_str_digits"
proof (cases "\<exists>s. x = Some s \<and> s \<noteq> [] \<and> isdigit s")
  case True
  then show ?thesis using assms py_int_range by (auto simp: int_field_def)
next
  case False
  then have "v = 0" using assms by (auto simp: int_field_def split: option.splits if_splits)
  then show ?thesis by simp
qed

lemma decimal_isdigit: "s \<noteq> [] \<Longrightarrow> list_all isdecimal s \<Longrightarrow> isdigit s"
  by (auto simp: isdigit_def isdigit_char_def list_all_iff)

lemma int_field_coerce:
  assumes "int_field x = Inr v"
  shows "v = coerce_int x"
proof (cases x)
  case None
  then show ?thesis using assms by (simp add: int_field_def coerce_int_def)
next
  case (Some s)
  show ?thesis
  proof (cases "s \<noteq> [] \<and> list_all isdecimal s")
    case True
    then have "isdigit s" using decimal_isdigit by simp
    then show ?thesis using assms Some True
      by (auto simp: int_field_def coerce_int_def py_int_def split: if_splits)
  next
    case False
    then show ?thesis using assms Some
      by (auto simp: int_field_def coerce_int_def py_int_def split: if_splits)
  qed
qed

lemma str_nat_length: "n < 10 ^ k \<Longrightarrow> 0 < k \<Longrightarrow> length (str_nat n) \<le> k"
proof (induction n arbitrary: k rule: str_nat.induct)
  case (1 n)
  show ?case
  proof (cases "n < 10")
    case True
    then show ?thesis using "1.prems" by (subst str_nat.simps) simp
  next
    case False
    obtain j where k: "k = Suc j" using "1.prems"(2) by (cases k) auto
    have "j \<noteq> 0" using False "1.prems"(1) k by (cases j) auto
    then have j: "0 < j" by simp
    have "n div 10 < 10 ^ j" using "1.prems"(1) k by (simp add: less_mult_imp_div_less)
    from "1.IH" [OF False this j] show ?thesis using False k
      by (subst str_nat.simps) simp
  qed
qed

lemma py_str_ok:
  assumes "\<bar>i\<bar> < 10 ^ int_max_str_digits"
  shows "py_str i = Inr (str_int i)"
proof -
  have "int (nat \<bar>i\<bar>) < int (10 ^ int_max_str_digits)" using assms by simp
  then have "nat \<bar>i\<bar> < 10 ^ int_max_str_digits" by (simp only: of_nat_less_iff)
  then have "length (str_nat (nat \<bar>i\<bar>)) \<le> int_max_str_digits"
    by (rule str_nat_length) (simp add: int_max_str_digits_def)
  then show ?thesis by (simp add: py_str_def)
qed


lemma parse_player_cases:
  assumes "parse_player e fd = Inr fd'"
  shows "\<exists>fi rt gm ti co bd.
           child_text e ''fideid'' = Inr fi \<and> child_text e ''rating'' = Inr rt \<and>
           child_text e ''games'' = Inr gm \<and> child_text e ''title'' = Inr ti \<and>
           child_text e ''country'' = Inr co \<and> child_text e ''birthday'' = Inr bd \<and>
           (((fi = None \<or> fi = Some []) \<and> fd' = fd) \<or>
            (\<exists>fid r g. fi = Some fid \<and> fid \<noteq> [] \<and> int_field rt = Inr r \<and> int_field gm = Inr g \<and>
               fd' = fd(fid \<mapsto> \<lparr>rating = r, games = g, rec_title = str_field ti,
                                  rec_country = str_field co, rec_birthday = str_field bd\<rparr>)))"
proof -
  from assms obtain fi where a1: "child_text e ''fideid'' = Inr fi"
    by (cases "child_text e ''fideid''") (simp_all add: parse_player_def bindE_def)
  from assms a1 obtain rt where a2: "child_text e ''rating'' = Inr rt"
    by (cases "child_text e ''rating''") (simp_all add: parse_player_def bindE_def)
  from assms a1 a2 obtain gm where a3: "child_text e ''games'' = Inr gm"
    by (cases "child_text e ''games''") (simp_all add: parse_player_def bindE_def)
  from assms a1 a2 a3 obtain ti where a4: "child_text e ''title'' = Inr ti"
    by (cases "child_text e ''title''") (simp_all add: parse_player_def bindE_def)
  from assms a1 a2 a3 a4 obtain co where a5: "child_text e ''country'' = Inr co"
    by (cases "child_text e ''country''") (simp_all add: parse_player_def bindE_def)
  from assms a1 a2 a3 a4 a5 obtain bd where a6: "child_text e ''birthday'' = Inr bd"
    by (cases "child_text e ''birthday''") (simp_all add: parse_player_def bindE_def)
  note a = a1 a2 a3 a4 a5 a6
  show ?thesis
  proof (cases "fi = None \<or> fi = Some []")
    case True
    then have "fd' = fd" using assms a by (auto simp: parse_player_def bindE_def)
    with True a show ?thesis by blast
  next
    case False
    then obtain fid where f: "fi = Some fid" "fid \<noteq> []" by (cases fi) auto
    from assms a f obtain r where r: "int_field rt = Inr r"
      by (cases "int_field rt") (simp_all add: parse_player_def bindE_def)
    from assms a f r obtain g where g: "int_field gm = Inr g"
      by (cases "int_field gm") (simp_all add: parse_player_def bindE_def)
    from assms a f r g have "fd' = fd(fid \<mapsto> \<lparr>rating = r, games = g, rec_title = str_field ti,
                                  rec_country = str_field co, rec_birthday = str_field bd\<rparr>)"
      by (simp add: parse_player_def bindE_def)
    with a f r g show ?thesis by blast
  qed
qed

lemma parse_player_record:
  assumes "parse_player e fd = Inr fd'" and "fd' fid = Some rc"
  shows "fd fid = Some rc \<or>
         (\<exists>rt gm ti co bd.
            child_text e ''fideid'' = Inr (Some fid) \<and> child_text e ''rating'' = Inr rt \<and>
            child_text e ''games'' = Inr gm \<and> child_text e ''title'' = Inr ti \<and>
            child_text e ''country'' = Inr co \<and> child_text e ''birthday'' = Inr bd \<and>
            int_field rt = Inr (rating rc) \<and> int_field gm = Inr (games rc) \<and>
            rec_title rc = str_field ti \<and> rec_country rc = str_field co \<and>
            rec_birthday rc = str_field bd)"
proof -
  from parse_player_cases [OF assms(1)] obtain fi rt gm ti co bd where
    a: "child_text e ''fideid'' = Inr fi" "child_text e ''rating'' = Inr rt"
       "child_text e ''games'' = Inr gm" "child_text e ''title'' = Inr ti"
       "child_text e ''country'' = Inr co" "child_text e ''birthday'' = Inr bd"
    and c: "((fi = None \<or> fi = Some []) \<and> fd' = fd) \<or>
            (\<exists>fid r g. fi = Some fid \<and> fid \<noteq> [] \<and> int_field rt = Inr r \<and> int_field gm = Inr g \<and>
               fd' = fd(fid \<mapsto> \<lparr>rating = r, games = g, rec_title = str_field ti,
                                  rec_country = str_field co, rec_birthday = str_field bd\<rparr>))"
    by blast
  from c show ?thesis
  proof
    assume "(fi = None \<or> fi = Some []) \<and> fd' = fd"
    then show ?thesis using assms(2) by simp
  next
    assume "\<exists>fid r g. fi = Some fid \<and> fid \<noteq> [] \<and> int_field rt = Inr r \<and> int_field gm = Inr g \<and>
               fd' = fd(fid \<mapsto> \<lparr>rating = r, games = g, rec_title = str_field ti,
                                  rec_country = str_field co, rec_birthday = str_field bd\<rparr>)"
    then obtain fid' r g where n: "fi = Some fid'" "int_field rt = Inr r" "int_field gm = Inr g"
      "fd' = fd(fid' \<mapsto> \<lparr>rating = r, games = g, rec_title = str_field ti,
                                  rec_country = str_field co, rec_birthday = str_field bd\<rparr>)"
      by blast
    show ?thesis
    proof (cases "fid = fid'")
      case True
      then have "rc = \<lparr>rating = r, games = g, rec_title = str_field ti,
                        rec_country = str_field co, rec_birthday = str_field bd\<rparr>"
        using assms(2) n(4) by simp
      then show ?thesis using a n True by auto
    next
      case False
      then show ?thesis using assms(2) n(4) by simp
    qed
  qed
qed

lemma parse_players_record:
  assumes "parse_players ps fd = Inr fd'" and "fd' fid = Some rc"
  shows "fd fid = Some rc \<or>
         (\<exists>e rt gm ti co bd. e \<in> set ps \<and>
            child_text e ''fideid'' = Inr (Some fid) \<and> child_text e ''rating'' = Inr rt \<and>
            child_text e ''games'' = Inr gm \<and> child_text e ''title'' = Inr ti \<and>
            child_text e ''country'' = Inr co \<and> child_text e ''birthday'' = Inr bd \<and>
            int_field rt = Inr (rating rc) \<and> int_field gm = Inr (games rc) \<and>
            rec_title rc = str_field ti \<and> rec_country rc = str_field co \<and>
            rec_birthday rc = str_field bd)"
  using assms
proof (induction ps arbitrary: fd)
  case Nil
  then show ?case by simp
next
  case (Cons p ps)
  from Cons.prems(1) obtain fd1 where p: "parse_player p fd = Inr fd1"
    and r: "parse_players ps fd1 = Inr fd'"
    by (cases "parse_player p fd") (simp_all add: bindE_def)
  from Cons.IH [OF r Cons.prems(2)] show ?case
  proof
    assume "fd1 fid = Some rc"
    from parse_player_record [OF p this] show ?thesis by (elim disjE exE) (simp, force)
  next
    assume "\<exists>e rt gm ti co bd. e \<in> set ps \<and>
            child_text e ''fideid'' = Inr (Some fid) \<and> child_text e ''rating'' = Inr rt \<and>
            child_text e ''games'' = Inr gm \<and> child_text e ''title'' = Inr ti \<and>
            child_text e ''country'' = Inr co \<and> child_text e ''birthday'' = Inr bd \<and>
            int_field rt = Inr (rating rc) \<and> int_field gm = Inr (games rc) \<and>
            rec_title rc = str_field ti \<and> rec_country rc = str_field co \<and>
            rec_birthday rc = str_field bd"
    then show ?thesis by force
  qed
qed

lemma download_shape:
  assumes "download_and_parse_fide_xml resp fid = Some rc"
  shows "\<exists>members root.
           resp = Response 200 (Archive members) \<and>
           map_of (rev members) (hd (filter (\<lambda>nm. endswith nm ''.xml'') (map fst members)))
             = Some (Document root) \<and>
           parse_players (findall root ''player'') Map.empty
             = Inr (download_and_parse_fide_xml resp)"
proof (cases resp)
  case NoResponse
  then show ?thesis using assms by (simp add: download_and_parse_fide_xml_def parse_feed_def)
next
  case (Response status_code content)
  show ?thesis
  proof (cases "status_code = 200")
    case False
    then show ?thesis using assms Response
      by (simp add: download_and_parse_fide_xml_def parse_feed_def)
  next
    case True
    show ?thesis
    proof (cases content)
      case BadArchive
      then show ?thesis using assms Response True
        by (simp add: download_and_parse_fide_xml_def parse_feed_def)
    next
      case (Archive members)
      show ?thesis
      proof (cases "filter (\<lambda>nm. endswith nm ''.xml'') (map fst members)")
        case Nil
        then show ?thesis using assms Response True Archive
          by (simp add: download_and_parse_fide_xml_def parse_feed_def)
      next
        case (Cons xml_filename rest)
        show ?thesis
        proof (cases "map_of (rev members) xml_filename")
          case None
          then show ?thesis using assms Response True Archive Cons
            by (simp add: download_and_parse_fide_xml_def parse_feed_def)
        next
          case (Some doc)
          show ?thesis
          proof (cases doc)
            case Malformed
            then show ?thesis using assms Response True Archive Cons Some
              by (simp add: download_and_parse_fide_xml_def parse_feed_def)
          next
            case (Document root)
            show ?thesis
            proof (cases "parse_players (findall root ''player'') Map.empty")
              case (Inl e)
              then show ?thesis using assms Response True Archive Cons Some Document
                by (simp add: download_and_parse_fide_xml_def parse_feed_def)
            next
              case (Inr fd)
              then show ?thesis using Response True Archive Cons Some Document
                by (simp add: download_and_parse_fide_xml_def parse_feed_def)
            qed
          qed
        qed
      qed
    qed
  qed
qed

lemma download_record:
  assumes "download_and_parse_fide_xml resp fid = Some rc"
  shows "\<exists>members root e rt gm ti co bd.
           resp = Response 200 (Archive members) \<and>
           map_of (rev members) (hd (filter (\<lambda>nm. endswith nm ''.xml'') (map fst members)))
             = Some (Document root) \<and>
           e \<in> set (findall root ''player'') \<and>
           child_text e ''fideid'' = Inr (Some fid) \<and> child_text e ''rating'' = Inr rt \<and>
           child_text e ''games'' = Inr gm \<and> child_text e ''title'' = Inr ti \<and>
           child_text e ''country'' = Inr co \<and> child_text e ''birthday'' = Inr bd \<and>
           int_field rt = Inr (rating rc) \<and> int_field gm = Inr (games rc) \<and>
           rec_title rc = str_field ti \<and> rec_country rc = str_field co \<and>
           rec_birthday rc = str_field bd"
proof -
  from download_shape [OF assms] obtain members root where
    s: "resp = Response 200 (Archive members)"
       "map_of (rev members) (hd (filter (\<lambda>nm. endswith nm ''.xml'') (map fst members)))
             = Some (Document root)"
       "parse_players (findall root ''player'') Map.empty = Inr (download_and_parse_fide_xml resp)"
    by blast
  from parse_players_record [OF s(3) assms] s(1,2) show ?thesis by force
qed

lemma download_record_range:
  assumes "download_and_parse_fide_xml resp fid = Some rc"
  shows "0 \<le> rating rc \<and> rating rc < 10 ^ int_max_str_digits \<and>
         0 \<le> games rc \<and> games rc < 10 ^ int_max_str_digits"
proof -
  from download_record [OF assms] obtain rt gm where
    "int_field rt = Inr (rating rc)" "int_field gm = Inr (games rc)" by blast
  then show ?thesis using int_field_range by blast
qed


lemmas feed_eval = download_and_parse_fide_xml_def parse_feed_def example_feed_def endswith_def
  findall_def parse_player_def child_text_def find_child_def bindE_def int_field_def isdigit_def
  isdigit_char_def isdecimal_def py_int_def int_max_str_digits_def nat_of_decimal_def
  digit_value_def str_field_def

lemma example_snapshots:
  "download_and_parse_fide_xml (example_feed [example_entry (Some ''123'') ''2000'']) =
     [''123'' \<mapsto> example_record 2000]"
  "download_and_parse_fide_xml (example_feed [example_entry (Some ''123'') ''1980'']) =
     [''123'' \<mapsto> example_record 1980]"
  "download_and_parse_fide_xml (example_feed [example_entry (Some ''123'') ''0'']) =
     [''123'' \<mapsto> example_record 0]"
  "download_and_parse_fide_xml (example_feed []) = Map.empty"
  by (simp_all add: feed_eval example_entry_def example_record_def)

text \<open>
  C6. Every record of a snapshot that \<open>download_and_parse_fide_xml\<close> returns was built
  from a \<open>player\<close> element of the document in the response, the one whose identifier is
  the record's key: its rating and its games are not negative, each is the integer of
  the source text when that text is a numeric one and 0 when the text is anything else or
  absent, and title, country and birthday are the source texts, the empty text where the
  source has none. (A source text that \<open>isdigit\<close> accepts and \<open>int\<close> rejects, or one
  with more than 4300 digits, makes the whole snapshot empty, so that no record is
  present.)
\<close>

theorem parsed_record_fields:
  assumes "download_and_parse_fide_xml resp fid = Some rc"
  shows "0 \<le> rating rc \<and> 0 \<le> games rc \<and>
         (\<exists>members root e rt gm ti co bd.
            resp = Response 200 (Archive members) \<and>
            map_of (rev members) (hd (filter (\<lambda>nm. endswith nm ''.xml'') (map fst members)))
              = Some (Document root) \<and>
            e \<in> set (findall root ''player'') \<and>
            child_text e ''fideid'' = Inr (Some fid) \<and> child_text e ''rating'' = Inr rt \<and>
            child_text e ''games'' = Inr gm \<and> child_text e ''title'' = Inr ti \<and>
            child_text e ''country'' = Inr co \<and> child_text e ''birthday'' = Inr bd \<and>
            rating rc = coerce_int rt \<and> games rc = coerce_int gm \<and>
            rec_title rc = (case ti of None \<Rightarrow> [] | Some s \<Rightarrow> s) \<and>
            rec_country rc = (case co of None \<Rightarrow> [] | Some s \<Rightarrow> s) \<and>
            rec_birthday rc = (case bd of None \<Rightarrow> [] | Some s \<Rightarrow> s))"
proof -
  from download_record [OF assms] obtain members root e rt gm ti co bd where
    d: "resp = Response 200 (Archive members)"
       "map_of (rev members) (hd (filter (\<lambda>nm. endswith nm ''.xml'') (map fst members)))
              = Some (Document root)"
       "e \<in> set (findall root ''player'')"
       "child_text e ''fideid'' = Inr (Some fid)" "child_text e ''rating'' = Inr rt"
       "child_text e ''games'' = Inr gm" "child_text e ''title'' = Inr ti"
       "child_text e ''country'' = Inr co" "child_text e ''birthday'' = Inr bd"
    and i: "int_field rt = Inr (rating rc)" "int_field gm = Inr (games rc)"
    and t: "rec_title rc = str_field ti" "rec_country rc = str_field co"
       "rec_birthday rc = str_field bd"
    by blast
  have c: "rating rc = coerce_int rt" "games rc = coerce_int gm"
    using i int_field_coerce by blast+
  have "0 \<le> rating rc \<and> 0 \<le> games rc" using download_record_range [OF assms] by simp
  moreover have "\<exists>members root e rt gm ti co bd.
            resp = Response 200 (Archive members) \<and>
            map_of (rev members) (hd (filter (\<lambda>nm. endswith nm ''.xml'') (map fst members)))
              = Some (Document root) \<and>
            e \<in> set (findall root ''player'') \<and>
            child_text e ''fideid'' = Inr (Some fid) \<and> child_text e ''rating'' = Inr rt \<and>
            child_text e ''games'' = Inr gm \<and> child_text e ''title'' = Inr ti \<and>
            child_text e ''country'' = Inr co \<and> child_text e ''birthday'' = Inr bd \<and>
            rating rc = coerce_int rt \<and> games rc = coerce_int gm \<and>
            rec_title rc = (case ti of None \<Rightarrow> [] | Some s \<Rightarrow> s) \<and>
            rec_country rc = (case co of None \<Rightarrow> [] | Some s \<Rightarrow> s) \<and>
            rec_birthday rc = (case bd of None \<Rightarrow> [] | Some s \<Rightarrow> s)"
    using d c t unfolding str_field_def by blast
  ultimately show ?thesis by blast
qed

theorem parsed_record_fields_witness:
  "download_and_parse_fide_xml (example_feed [example_sparse_entry]) ''456'' =
     Some \<lparr>rating = 2452, games = 0, rec_title = [], rec_country = [], rec_birthday = []\<rparr> \<and>
   coerce_int (Some ''2452'') = 2452 \<and> coerce_int (Some ''n/a'') = 0 \<and> coerce_int None = 0 \<and>
   (\<exists>members root e rt gm ti co bd.
      example_feed [example_sparse_entry] = Response 200 (Archive members) \<and>
      map_of (rev members) (hd (filter (\<lambda>nm. endswith nm ''.xml'') (map fst members)))
        = Some (Document root) \<and>
      e \<in> set (findall root ''player'') \<and>
      child_text e ''fideid'' = Inr (Some ''456'') \<and> child_text e ''rating'' = Inr rt \<and>
      child_text e ''games'' = Inr gm \<and> child_text e ''title'' = Inr ti \<and>
      child_text e ''country'' = Inr co \<and> child_text e ''birthday'' = Inr bd \<and>
      2452 = coerce_int rt \<and> 0 = coerce_int gm \<and>
      [] = (case ti of None \<Rightarrow> [] | Some s \<Rightarrow> s) \<and>
      [] = (case co of None \<Rightarrow> [] | Some s \<Rightarrow> s) \<and>
      [] = (case bd of None \<Rightarrow> [] | Some s \<Rightarrow> s))"
proof -
  have h: "download_and_parse_fide_xml (example_feed [example_sparse_entry]) ''456'' =
     Some \<lparr>rating = 2452, games = 0, rec_title = [], rec_country = [], rec_birthday = []\<rparr>"
    by (simp add: feed_eval example_sparse_entry_def)
  have c: "coerce_int (Some ''2452'') = 2452 \<and> coerce_int (Some ''n/a'') = 0 \<and> coerce_int None = 0"
    by (simp add: coerce_int_def isdecimal_def nat_of_decimal_def digit_value_def)
  from parsed_record_fields [OF h] h c show ?thesis by simp
qed

section \<open>Records without an identifier\<close>

lemma parse_player_skip:
  assumes "child_text e ''fideid'' = Inr None \<or> child_text e ''fideid'' = Inr (Some [])"
    and "find_child e ''rating'' \<noteq> None" and "find_child e ''games'' \<noteq> None"
    and "find_child e ''title'' \<noteq> None" and "find_child e ''country'' \<noteq> None"
    and "find_child e ''birthday'' \<noteq> None"
  shows "parse_player e fd = Inr fd"
proof -
  from assms(2-6) obtain c1 c2 c3 c4 c5 where
    "find_child e ''rating'' = Some c1" "find_child e ''games'' = Some c2"
    "find_child e ''title'' = Some c3" "find_child e ''country'' = Some c4"
    "find_child e ''birthday'' = Some c5" by auto
  then have c: "child_text e ''rating'' = Inr (el_text c1)" "child_text e ''games'' = Inr (el_text c2)"
    "child_text e ''title'' = Inr (el_text c3)" "child_text e ''country'' = Inr (el_text c4)"
    "child_text e ''birthday'' = Inr (el_text c5)"
    by (simp_all add: child_text_def)
  from assms(1) show ?thesis
  proof
    assume "child_text e ''fideid'' = Inr None"
    then show ?thesis using c by (simp add: parse_player_def bindE_def)
  next
    assume "child_text e ''fideid'' = Inr (Some [])"
    then show ?thesis using c by (simp add: parse_player_def bindE_def)
  qed
qed

lemma parse_players_skip:
  assumes "\<And>fd. parse_player e fd = Inr fd"
  shows "parse_players (xs @ e # ys) fd = parse_players (xs @ ys) fd"
proof (induction xs arbitrary: fd)
  case Nil
  show ?case by (simp add: assms bindE_def)
next
  case (Cons x xs)
  show ?case by (cases "parse_player x fd") (simp_all add: bindE_def Cons.IH)
qed

lemma parse_player_missing_child:
  assumes "t \<in> set [''fideid'', ''rating'', ''games'', ''title'', ''country'', ''birthday'']"
    and "find_child e t = None"
  shows "parse_player e fd = Inl AttributeError"
proof -
  have a: "child_text e t = Inl AttributeError" using assms(2) by (simp add: child_text_def)
  have b: "child_text e u = Inl AttributeError \<or> (\<exists>x. child_text e u = Inr x)" for u
    by (simp add: child_text_def split: option.splits)
  from b [of "''fideid''"] b [of "''rating''"] b [of "''games''"] b [of "''title''"]
    b [of "''country''"] b [of "''birthday''"] a assms(1)
  show ?thesis
    by (elim disjE exE) (auto simp: parse_player_def bindE_def)
qed

lemma parse_players_fail:
  assumes "e \<in> set ps" and "\<And>fd. parse_player e fd = Inl err"
  shows "\<exists>err'. parse_players ps fd = Inl err'"
  using assms(1)
proof (induction ps arbitrary: fd)
  case Nil
  then show ?case by simp
next
  case (Cons x ps)
  show ?case
  proof (cases "parse_player x fd")
    case (Inl a)
    then show ?thesis by (simp add: bindE_def)
  next
    case (Inr fd1)
    then have "x \<noteq> e" using assms(2) [of fd] by auto
    then have "e \<in> set ps" using Cons.prems by simp
    from Cons.IH [OF this, of fd1] show ?thesis using Inr by (simp add: bindE_def)
  qed
qed

lemma download_single_member:
  "download_and_parse_fide_xml (Response status_code (Archive [(nm, Document root)])) =
     (if status_code = 200 \<and> endswith nm ''.xml''
      then (case parse_players (findall root ''player'') Map.empty of
              Inl e \<Rightarrow> Map.empty | Inr fd \<Rightarrow> fd)
      else Map.empty)"
  by (simp add: download_and_parse_fide_xml_def parse_feed_def)

text \<open>
  C5, as amended. A \<open>player\<close> element that has the six child elements and whose
  \<open>fideid\<close> element has no text, or the empty text, is skipped: it leaves the snapshot
  as it is and raises nothing, and the list that holds it is parsed to what the list
  without it is parsed to. An element that lacks one of the six child elements is not
  skipped: reading the text of the missing child raises, and the snapshot of the whole
  list is empty.
\<close>

theorem record_without_identifier_skipped:
  assumes "el_tag e = ''player''"
    and "child_text e ''fideid'' = Inr None \<or> child_text e ''fideid'' = Inr (Some [])"
    and "find_child e ''rating'' \<noteq> None" and "find_child e ''games'' \<noteq> None"
    and "find_child e ''title'' \<noteq> None" and "find_child e ''country'' \<noteq> None"
    and "find_child e ''birthday'' \<noteq> None"
  shows "parse_player e fd = Inr fd \<and>
         parse_players (xs @ e # ys) fd = parse_players (xs @ ys) fd \<and>
         download_and_parse_fide_xml
           (Response status_code (Archive [(nm, Document (Element tg tx (xs @ e # ys)))])) =
         download_and_parse_fide_xml
           (Response status_code (Archive [(nm, Document (Element tg tx (xs @ ys)))])) \<and>
         (e' \<in> set (findall root ''player'') \<and>
          t \<in> set [''fideid'', ''rating'', ''games'', ''title'', ''country'', ''birthday''] \<and>
          find_child e' t = None \<longrightarrow>
            download_and_parse_fide_xml (Response status_code (Archive [(nm, Document root)]))
              = Map.empty)"
proof (intro conjI impI)
  have s: "parse_player e fd = Inr fd" for fd by (rule parse_player_skip [OF assms(2-7)])
  show "parse_player e fd = Inr fd" by (rule s)
  show "parse_players (xs @ e # ys) fd = parse_players (xs @ ys) fd"
    by (rule parse_players_skip [OF s])
  have "findall (Element tg tx (xs @ e # ys)) ''player'' =
          filter (\<lambda>c. el_tag c = ''player'') xs @ e # filter (\<lambda>c. el_tag c = ''player'') ys"
    using assms(1) by (simp add: findall_def)
  moreover have "findall (Element tg tx (xs @ ys)) ''player'' =
          filter (\<lambda>c. el_tag c = ''player'') xs @ filter (\<lambda>c. el_tag c = ''player'') ys"
    by (simp add: findall_def)
  ultimately show "download_and_parse_fide_xml
           (Response status_code (Archive [(nm, Document (Element tg tx (xs @ e # ys)))])) =
         download_and_parse_fide_xml
           (Response status_code (Archive [(nm, Document (Element tg tx (xs @ ys)))]))"
    by (simp only: download_single_member parse_players_skip [OF s])
next
  assume a: "e' \<in> set (findall root ''player'') \<and>
          t \<in> set [''fideid'', ''rating'', ''games'', ''title'', ''country'', ''birthday''] \<and>
          find_child e' t = None"
  then have "parse_player e' fd = Inl AttributeError" for fd
    using parse_player_missing_child by blast
  from parse_players_fail [OF _ this, of "findall root ''player''" Map.empty] a
  obtain err where "parse_players (findall root ''player'') Map.empty = Inl err" by blast
  then show "download_and_parse_fide_xml (Response status_code (Archive [(nm, Document root)]))
              = Map.empty"
    by (simp add: download_single_member)
qed

theorem record_without_identifier_skipped_witness:
  "parse_player (example_entry None ''1'') [''123'' \<mapsto> example_record 2000] =
     Inr [''123'' \<mapsto> example_record 2000] \<and>
   download_and_parse_fide_xml
     (example_feed [example_entry None ''1'', example_entry (Some ''123'') ''2000'']) =
   download_and_parse_fide_xml (example_feed [example_entry (Some ''123'') ''2000'']) \<and>
   download_and_parse_fide_xml
     (example_feed [example_entry (Some ''123'') ''2000'', example_entry (Some []) ''7''])
     ''123'' = Some (example_record 2000) \<and>
   download_and_parse_fide_xml
     (example_feed [example_entry (Some ''123'') ''2000'', example_entry_without_birthday])
     = Map.empty"
proof -
  have c: "find_child (example_entry fi rt) ''rating'' \<noteq> None"
    "find_child (example_entry fi rt) ''games'' \<noteq> None"
    "find_child (example_entry fi rt) ''title'' \<noteq> None"
    "find_child (example_entry fi rt) ''country'' \<noteq> None"
    "find_child (example_entry fi rt) ''birthday'' \<noteq> None"
    "child_text (example_entry fi rt) ''fideid'' = Inr fi"
    "el_tag (example_entry fi rt) = ''player''" for fi rt
    by (simp_all add: example_entry_def find_child_def child_text_def)
  have m: "find_child example_entry_without_birthday ''birthday'' = None"
    by (simp add: example_entry_without_birthday_def find_child_def)
  have t: "example_entry_without_birthday \<in> set (findall (Element ''playerslist'' None
             [example_entry (Some ''123'') ''2000'', example_entry_without_birthday]) ''player'')"
    by (simp add: findall_def example_entry_without_birthday_def)
  from record_without_identifier_skipped [where e = "example_entry None ''1''"
      and fd = "[''123'' \<mapsto> example_record 2000]" and xs = "[]"
      and ys = "[example_entry (Some ''123'') ''2000'']" and status_code = 200
      and nm = "''standard_rating_list.xml''" and tg = "''playerslist''" and tx = None
      and e' = example_entry_without_birthday and t = "''birthday''"
      and root = "Element ''playerslist'' None
             [example_entry (Some ''123'') ''2000'', example_entry_without_birthday]"]
  have a: "parse_player (example_entry None ''1'') [''123'' \<mapsto> example_record 2000] =
     Inr [''123'' \<mapsto> example_record 2000] \<and>
   download_and_parse_fide_xml
     (example_feed [example_entry None ''1'', example_entry (Some ''123'') ''2000'']) =
   download_and_parse_fide_xml (example_feed [example_entry (Some ''123'') ''2000'']) \<and>
   download_and_parse_fide_xml
     (example_feed [example_entry (Some ''123'') ''2000'', example_entry_without_birthday])
     = Map.empty"
    using c m t by (simp add: example_feed_def)
  from record_without_identifier_skipped [where e = "example_entry (Some []) ''7''"
      and xs = "[example_entry (Some ''123'') ''2000'']"
      and ys = "[]" and status_code = 200
      and nm = "''standard_rating_list.xml''" and tg = "''playerslist''" and tx = None]
  have "download_and_parse_fide_xml
     (example_feed [example_entry (Some ''123'') ''2000'', example_entry (Some []) ''7'']) =
     download_and_parse_fide_xml (example_feed [example_entry (Some ''123'') ''2000''])"
    using c by (simp add: example_feed_def)
  then have b: "download_and_parse_fide_xml
     (example_feed [example_entry (Some ''123'') ''2000'', example_entry (Some []) ''7''])
     ''123'' = Some (example_record 2000)"
    by (simp add: example_snapshots)
  from a b show ?thesis by simp
qed

text \<open>
  C5 as stated fails. A record without the \<open>fideid\<close> element has no identifier, and a
  record whose \<open>fideid\<close> element has no text and which lacks the \<open>birthday\<close> element
  has none either; neither is skipped. Each ends the parse with an exception, so the
  record \<open>123\<close> that follows it in the feed, and that is parsed when it stands alone, is
  not in the snapshot.
\<close>

theorem record_without_identifier_empties_snapshot:
  "download_and_parse_fide_xml
     (example_feed [example_entry_without_fideid, example_entry (Some ''123'') ''2000''])
     ''123'' = None \<and>
   download_and_parse_fide_xml
     (example_feed [example_entry_without_birthday, example_entry (Some ''123'') ''2000''])
     ''123'' = None \<and>
   download_and_parse_fide_xml (example_feed [example_entry (Some ''123'') ''2000''])
     ''123'' = Some (example_record 2000)"
  by (simp add: feed_eval example_entry_def example_record_def
      example_entry_without_fideid_def example_entry_without_birthday_def)

section \<open>Properties of the matching\<close>

lemma example_link_id: "search_profile ''https://ratings.fide.com/profile/123'' = Some ''123''"
  by (simp add: match_profile_at_def startswith_def isdecimal_def)

lemma knsb_stats_frame:
  "title (snd (knsb_stats pg p)) = title p"
  "country (snd (knsb_stats pg p)) = country p"
  "birthday (snd (knsb_stats pg p)) = birthday p"
  "fide_id (snd (knsb_stats pg p)) = fide_id p"
  "fide_rating (snd (knsb_stats pg p)) = fide_rating p"
  "fide_games (snd (knsb_stats pg p)) = fide_games p"
  "fide_change (snd (knsb_stats pg p)) = fide_change p"
  by (simp_all add: knsb_stats_def parse_rating_change_def parse_games_played_def
      split: option.splits prod.splits)

lemma backfill_fields:
  "title (backfill rc p) = (if title p = [] \<and> rec_title rc \<noteq> [] then rec_title rc else title p)"
  "country (backfill rc p) =
     (if country p = [] \<and> rec_country rc \<noteq> [] then rec_country rc else country p)"
  "birthday (backfill rc p) =
     (if birthday p = [] \<and> rec_birthday rc \<noteq> [] then rec_birthday rc else birthday p)"
  by (simp_all add: backfill_def Let_def)

lemma match_fide_result:
  obtains (unmatched) "snd (match_fide current_fide prev_fide fid p) = p\<lparr>fide_id := Some fid\<rparr>"
  | (rating) rs where "snd (match_fide current_fide prev_fide fid p) =
                         p\<lparr>fide_id := Some fid, fide_rating := Some rs\<rparr>"
  | (games) rs gs where "snd (match_fide current_fide prev_fide fid p) =
                         p\<lparr>fide_id := Some fid, fide_rating := Some rs, fide_games := Some gs\<rparr>"
  | (all) curr_rec rs gs p4 where "current_fide fid = Some curr_rec"
      "set_fide_change curr_rec prev_fide fid
         (p\<lparr>fide_id := Some fid, fide_rating := Some rs, fide_games := Some gs\<rparr>) = Inr p4"
      "snd (match_fide current_fide prev_fide fid p) = backfill curr_rec p4"
proof (cases "current_fide fid")
  case None
  then show ?thesis by (intro unmatched) (simp add: match_fide_def)
next
  case (Some rc)
  show ?thesis
  proof (cases "py_str (rating rc)")
    case (Inl e)
    then show ?thesis using Some by (intro unmatched) (simp add: match_fide_def)
  next
    case r: (Inr rs)
    show ?thesis
    proof (cases "py_str (games rc)")
      case (Inl e)
      then show ?thesis using Some r by (intro rating [where rs = rs]) (simp add: match_fide_def)
    next
      case g: (Inr gs)
      show ?thesis
      proof (cases "set_fide_change rc prev_fide fid
                      (p\<lparr>fide_id := Some fid, fide_rating := Some rs, fide_games := Some gs\<rparr>)")
        case (Inl e)
        then show ?thesis using Some r g by (intro games [where rs = rs and gs = gs]) (simp add: match_fide_def)
      next
        case (Inr p4)
        then show ?thesis using Some r g
          by (intro all [where curr_rec = rc and rs = rs and gs = gs and ?p4.0 = p4])
            (simp_all add: match_fide_def)
      qed
    qed
  qed
qed

lemma fide_id_match_fide: "fide_id (snd (match_fide current_fide prev_fide fid p)) = Some fid"
  by (cases rule: match_fide_result [of current_fide prev_fide fid p])
    (simp_all add: set_fide_change_frame)

lemma match_fide_roster_fields:
  "(title (snd (match_fide current_fide prev_fide fid p)) = title p \<or> title p = []) \<and>
   (country (snd (match_fide current_fide prev_fide fid p)) = country p \<or> country p = []) \<and>
   (birthday (snd (match_fide current_fide prev_fide fid p)) = birthday p \<or> birthday p = [])"
  by (cases rule: match_fide_result [of current_fide prev_fide fid p])
    (simp_all add: set_fide_change_frame backfill_fields)

lemma process_player_roster_fields:
  "(title (process_player current_fide prev_fide re_bound pg p) = title p \<or> title p = []) \<and>
   (country (process_player current_fide prev_fide re_bound pg p) = country p \<or> country p = []) \<and>
   (birthday (process_player current_fide prev_fide re_bound pg p) = birthday p \<or> birthday p = [])"
proof -
  define q where "q = snd (knsb_stats pg p)"
  have q: "title q = title p" "country q = country p" "birthday q = birthday p"
    by (simp_all add: q_def knsb_stats_frame)
  have "process_player current_fide prev_fide re_bound pg p = p \<or>
        process_player current_fide prev_fide re_bound pg p = q \<or>
        (\<exists>fid. process_player current_fide prev_fide re_bound pg p =
                 snd (match_fide current_fide prev_fide fid q))"
    by (auto simp: process_player_def fide_step_def q_def split: option.splits)
  then show ?thesis using q match_fide_roster_fields [of current_fide prev_fide _ q]
    by (elim disjE exE) simp_all
qed

lemma process_player_fide_id:
  assumes "goto_ok pg" and "import_re pg re_bound" and "fide_link pg = Some fide_url"
    and "search_profile fide_url = Some fid"
  shows "process_player current_fide prev_fide re_bound pg p =
           snd (match_fide current_fide prev_fide fid (snd (knsb_stats pg p)))"
    and "fide_id (process_player current_fide prev_fide re_bound pg p) = Some fid"
  using assms by (simp_all add: process_player_def fide_step_def fide_id_match_fide)

lemma process_player_fide_idD:
  assumes "fide_id p = None"
    and "fide_id (process_player current_fide prev_fide re_bound pg p) = Some fid"
  shows "goto_ok pg \<and> import_re pg re_bound \<and>
         (\<exists>fide_url. fide_link pg = Some fide_url \<and> search_profile fide_url = Some fid)"
proof -
  have q: "fide_id (snd (knsb_stats pg p)) = None" using assms(1) by (simp add: knsb_stats_frame)
  from assms(2) q assms(1) show ?thesis
    by (auto simp: process_player_def fide_step_def fide_id_match_fide
        split: if_splits option.splits)
qed

lemma set_fide_change_in_range:
  assumes "\<And>prev_rec. prev_fide fid = Some prev_rec \<Longrightarrow>
             \<bar>rating curr_rec - rating prev_rec\<bar> < 10 ^ int_max_str_digits"
  shows "set_fide_change curr_rec prev_fide fid p =
           Inr (case prev_fide fid of
                  None \<Rightarrow> p\<lparr>fide_change := Some ''0''\<rparr>
                | Some prev_rec \<Rightarrow>
                    if rating prev_rec > 0
                    then p\<lparr>fide_change := Some (format_change (rating curr_rec - rating prev_rec))\<rparr>
                    else p)"
proof (cases "prev_fide fid")
  case None
  then show ?thesis by (simp add: set_fide_change_def)
next
  case (Some prev_rec)
  from py_str_ok [OF assms [OF Some]] show ?thesis using Some
    by (simp add: set_fide_change_def bindE_def Let_def format_change_def)
qed

lemma match_fide_in_range:
  assumes "current_fide fid = Some curr_rec"
    and "\<bar>rating curr_rec\<bar> < 10 ^ int_max_str_digits"
    and "\<bar>games curr_rec\<bar> < 10 ^ int_max_str_digits"
    and "\<And>prev_rec. prev_fide fid = Some prev_rec \<Longrightarrow>
             \<bar>rating curr_rec - rating prev_rec\<bar> < 10 ^ int_max_str_digits"
  shows "snd (match_fide current_fide prev_fide fid p) =
           backfill curr_rec
             (case prev_fide fid of
                None \<Rightarrow> p\<lparr>fide_id := Some fid, fide_rating := Some (str_int (rating curr_rec)),
                          fide_games := Some (str_int (games curr_rec)),
                          fide_change := Some ''0''\<rparr>
              | Some prev_rec \<Rightarrow>
                  if rating prev_rec > 0
                  then p\<lparr>fide_id := Some fid, fide_rating := Some (str_int (rating curr_rec)),
                         fide_games := Some (str_int (games curr_rec)),
                         fide_change := Some (format_change (rating curr_rec - rating prev_rec))\<rparr>
                  else p\<lparr>fide_id := Some fid, fide_rating := Some (str_int (rating curr_rec)),
                         fide_games := Some (str_int (games curr_rec))\<rparr>)"
  using assms(1) py_str_ok [OF assms(2)] py_str_ok [OF assms(3)]
    set_fide_change_in_range [of prev_fide fid curr_rec, OF assms(4)]
  by (simp add: match_fide_def Let_def split: option.splits)

lemma matched_with_parsed_lists:
  assumes "fide_id p = None"
    and "fide_id (process_player (download_and_parse_fide_xml cur_resp)
                    (download_and_parse_fide_xml prev_resp) re_bound pg p) = Some fid"
    and "download_and_parse_fide_xml cur_resp fid = Some curr_rec"
  shows "process_player (download_and_parse_fide_xml cur_resp)
           (download_and_parse_fide_xml prev_resp) re_bound pg p =
         backfill curr_rec
           (case download_and_parse_fide_xml prev_resp fid of
              None \<Rightarrow> (snd (knsb_stats pg p))
                        \<lparr>fide_id := Some fid, fide_rating := Some (str_int (rating curr_rec)),
                          fide_games := Some (str_int (games curr_rec)),
                          fide_change := Some ''0''\<rparr>
            | Some prev_rec \<Rightarrow>
                if rating prev_rec > 0
                then (snd (knsb_stats pg p))
                       \<lparr>fide_id := Some fid, fide_rating := Some (str_int (rating curr_rec)),
                         fide_games := Some (str_int (games curr_rec)),
                         fide_change := Some (format_change (rating curr_rec - rating prev_rec))\<rparr>
                else (snd (knsb_stats pg p))
                       \<lparr>fide_id := Some fid, fide_rating := Some (str_int (rating curr_rec)),
                         fide_games := Some (str_int (games curr_rec))\<rparr>)"
proof -
  from process_player_fide_idD [OF assms(1,2)] obtain fide_url where
    g: "goto_ok pg" "import_re pg re_bound" "fide_link pg = Some fide_url"
       "search_profile fide_url = Some fid" by blast
  note c = download_record_range [OF assms(3)]
  have d: "\<bar>rating curr_rec - rating prev_rec\<bar> < 10 ^ int_max_str_digits"
    if "download_and_parse_fide_xml prev_resp fid = Some prev_rec" for prev_rec
    using c download_record_range [OF that] by linarith
  have "snd (match_fide (download_and_parse_fide_xml cur_resp)
               (download_and_parse_fide_xml prev_resp) fid (snd (knsb_stats pg p))) =
        backfill curr_rec
           (case download_and_parse_fide_xml prev_resp fid of
              None \<Rightarrow> (snd (knsb_stats pg p))
                        \<lparr>fide_id := Some fid, fide_rating := Some (str_int (rating curr_rec)),
                          fide_games := Some (str_int (games curr_rec)),
                          fide_change := Some ''0''\<rparr>
            | Some prev_rec \<Rightarrow>
                if rating prev_rec > 0
                then (snd (knsb_stats pg p))
                       \<lparr>fide_id := Some fid, fide_rating := Some (str_int (rating curr_rec)),
                         fide_games := Some (str_int (games curr_rec)),
                         fide_change := Some (format_change (rating curr_rec - rating prev_rec))\<rparr>
                else (snd (knsb_stats pg p))
                       \<lparr>fide_id := Some fid, fide_rating := Some (str_int (rating curr_rec)),
                         fide_games := Some (str_int (games curr_rec))\<rparr>)"
    by (rule match_fide_in_range [where current_fide = "download_and_parse_fide_xml cur_resp",
          OF assms(3)]) (use c d in simp_all)
  then show ?thesis
    by (simp only: process_player_fide_id(1) [OF g])
qed

lemma match_fide_in_range_error:
  assumes "current_fide fid = Some curr_rec"
    and "\<bar>rating curr_rec\<bar> < 10 ^ int_max_str_digits"
    and "\<bar>games curr_rec\<bar> < 10 ^ int_max_str_digits"
    and "\<And>prev_rec. prev_fide fid = Some prev_rec \<Longrightarrow>
             \<bar>rating curr_rec - rating prev_rec\<bar> < 10 ^ int_max_str_digits"
  shows "fst (match_fide current_fide prev_fide fid p) =
           (if fide_change (snd (match_fide current_fide prev_fide fid p)) = None
            then Some KeyError else None)"
  using assms(1) py_str_ok [OF assms(2)] py_str_ok [OF assms(3)]
    set_fide_change_in_range [of prev_fide fid curr_rec, OF assms(4)]
  by (simp add: match_fide_def Let_def split: option.splits)

lemma example_profile_facts:
  "goto_ok example_profile" "table_ok example_profile" "import_re example_profile re_bound"
  "fide_link example_profile = Some ''https://ratings.fide.com/profile/123''"
  by (simp_all add: example_profile_def loaded_page_def import_re_def example_link_def)

lemma example_profile_fide_id:
  "fide_id (process_player current_fide prev_fide re_bound example_profile p) = Some ''123''"
  by (rule process_player_fide_id(2) [OF example_profile_facts(1,3,4) example_link_id])

lemma example_previous_snapshots:
  "download_and_parse_fide_xml (example_feed [example_entry (Some ''123'') ''2020'']) =
     [''123'' \<mapsto> example_record 2020]"
  "download_and_parse_fide_xml (example_feed [example_entry (Some ''456'') ''1980'']) =
     [''456'' \<mapsto> example_record 1980]"
  by (simp_all add: feed_eval example_entry_def example_record_def)

lemma example_texts:
  "str_int 2000 = ''2000''" "str_int 5 = ''5''" "str_int 20 = ''20''" "str_int (- 20) = ''-20''"
  "str_int 0 = ''0''"
  by code_simp+

lemma example_player_fields:
  "title example_player = ''FM''" "country example_player = []" "birthday example_player = []"
  "fide_id example_player = None"
  by (simp_all add: example_player_def)

text \<open>
  C7. For a player made from a roster row whose identifier was extracted and is found in
  the current list (both lists being what \<open>download_and_parse_fide_xml\<close> returned): each
  of \<open>title\<close>, \<open>country\<close> and \<open>birthday\<close> takes the federation value exactly when the value
  from the roster is empty and the federation value is not, and keeps the value from the
  roster otherwise. And whatever the lists, the page and the binding state of \<open>re\<close>, a
  value from the roster that is not empty is never replaced.
\<close>

theorem backfill_only_into_empty_fields:
  assumes "row_player r = Some p"
    and "fide_id (process_player (download_and_parse_fide_xml cur_resp)
                    (download_and_parse_fide_xml prev_resp) re_bound pg p) = Some fid"
    and "download_and_parse_fide_xml cur_resp fid = Some curr_rec"
  shows "title (process_player (download_and_parse_fide_xml cur_resp)
                  (download_and_parse_fide_xml prev_resp) re_bound pg p) =
           (if title p = [] \<and> rec_title curr_rec \<noteq> [] then rec_title curr_rec else title p) \<and>
         country (process_player (download_and_parse_fide_xml cur_resp)
                  (download_and_parse_fide_xml prev_resp) re_bound pg p) =
           (if country p = [] \<and> rec_country curr_rec \<noteq> [] then rec_country curr_rec
            else country p) \<and>
         birthday (process_player (download_and_parse_fide_xml cur_resp)
                  (download_and_parse_fide_xml prev_resp) re_bound pg p) =
           (if birthday p = [] \<and> rec_birthday curr_rec \<noteq> [] then rec_birthday curr_rec
            else birthday p) \<and>
         (title p \<noteq> [] \<longrightarrow>
            title (process_player current_fide prev_fide re_bound' pg' p) = title p) \<and>
         (country p \<noteq> [] \<longrightarrow>
            country (process_player current_fide prev_fide re_bound' pg' p) = country p) \<and>
         (birthday p \<noteq> [] \<longrightarrow>
            birthday (process_player current_fide prev_fide re_bound' pg' p) = birthday p)"
proof -
  have n: "fide_id p = None" using row_player_defaults [OF assms(1)] by simp
  note m = matched_with_parsed_lists [OF n assms(2,3)]
  have "title (process_player (download_and_parse_fide_xml cur_resp)
                  (download_and_parse_fide_xml prev_resp) re_bound pg p) =
           (if title p = [] \<and> rec_title curr_rec \<noteq> [] then rec_title curr_rec else title p)"
    unfolding m by (simp add: backfill_fields knsb_stats_frame split: option.splits)
  moreover have "country (process_player (download_and_parse_fide_xml cur_resp)
                  (download_and_parse_fide_xml prev_resp) re_bound pg p) =
           (if country p = [] \<and> rec_country curr_rec \<noteq> [] then rec_country curr_rec
            else country p)"
    unfolding m by (simp add: backfill_fields knsb_stats_frame split: option.splits)
  moreover have "birthday (process_player (download_and_parse_fide_xml cur_resp)
                  (download_and_parse_fide_xml prev_resp) re_bound pg p) =
           (if birthday p = [] \<and> rec_birthday curr_rec \<noteq> [] then rec_birthday curr_rec
            else birthday p)"
    unfolding m by (simp add: backfill_fields knsb_stats_frame split: option.splits)
  ultimately show ?thesis
    using process_player_roster_fields [of current_fide prev_fide re_bound' pg' p] by auto
qed

theorem backfill_only_into_empty_fields_witness:
  "title (process_player
            (download_and_parse_fide_xml (example_feed [example_entry (Some ''123'') ''2000'']))
            (download_and_parse_fide_xml (example_feed [])) False example_profile
            example_player) = ''FM'' \<and>
   country (process_player
            (download_and_parse_fide_xml (example_feed [example_entry (Some ''123'') ''2000'']))
            (download_and_parse_fide_xml (example_feed [])) False example_profile
            example_player) = ''NED'' \<and>
   birthday (process_player
            (download_and_parse_fide_xml (example_feed [example_entry (Some ''123'') ''2000'']))
            (download_and_parse_fide_xml (example_feed [])) False example_profile
            example_player) = ''1990'' \<and>
   title (process_player Map.empty Map.empty True example_profile example_player) = ''FM''"
  using backfill_only_into_empty_fields [where r = example_row and p = example_player
      and cur_resp = "example_feed [example_entry (Some ''123'') ''2000'']"
      and prev_resp = "example_feed []" and re_bound = False and pg = example_profile
      and fid = "''123''" and curr_rec = "example_record 2000"
      and current_fide = Map.empty and prev_fide = Map.empty and re_bound' = True
      and pg' = example_profile]
    example_row_player example_profile_fide_id
  by (simp add: example_snapshots example_player_fields example_record_def)

text \<open>
  C2, as amended. For a player made from a roster row whose identifier was extracted and
  is found in the current list (both lists being what \<open>download_and_parse_fide_xml\<close>
  returned): \<open>fide_rating\<close> and \<open>fide_games\<close> are set, to the rating and the games of the
  current record as decimal texts; \<open>fide_change\<close> is set to the formatted difference
  when the previous list has the identifier with a rating above zero, and to \<open>"0"\<close> when
  the previous list does not have the identifier.
\<close>

theorem fide_fields_populated:
  assumes "row_player r = Some p"
    and "fide_id (process_player (download_and_parse_fide_xml cur_resp)
                    (download_and_parse_fide_xml prev_resp) re_bound pg p) = Some fid"
    and "download_and_parse_fide_xml cur_resp fid = Some curr_rec"
  shows "fide_rating (process_player (download_and_parse_fide_xml cur_resp)
                  (download_and_parse_fide_xml prev_resp) re_bound pg p) =
           Some (str_int (rating curr_rec)) \<and>
         fide_games (process_player (download_and_parse_fide_xml cur_resp)
                  (download_and_parse_fide_xml prev_resp) re_bound pg p) =
           Some (str_int (games curr_rec)) \<and>
         (download_and_parse_fide_xml prev_resp fid = Some prev_rec \<and> rating prev_rec > 0 \<longrightarrow>
            fide_change (process_player (download_and_parse_fide_xml cur_resp)
                  (download_and_parse_fide_xml prev_resp) re_bound pg p) =
              Some (format_change (rating curr_rec - rating prev_rec))) \<and>
         (download_and_parse_fide_xml prev_resp fid = None \<longrightarrow>
            fide_change (process_player (download_and_parse_fide_xml cur_resp)
                  (download_and_parse_fide_xml prev_resp) re_bound pg p) = Some ''0'')"
proof -
  have n: "fide_id p = None" using row_player_defaults [OF assms(1)] by simp
  note m = matched_with_parsed_lists [OF n assms(2,3)]
  show ?thesis unfolding m by (simp split: option.splits)
qed

theorem fide_fields_populated_witness:
  "fide_rating (process_player
      (download_and_parse_fide_xml (example_feed [example_entry (Some ''123'') ''2000'']))
      (download_and_parse_fide_xml (example_feed [example_entry (Some ''123'') ''1980'']))
      False example_profile example_player) = Some ''2000'' \<and>
   fide_games (process_player
      (download_and_parse_fide_xml (example_feed [example_entry (Some ''123'') ''2000'']))
      (download_and_parse_fide_xml (example_feed [example_entry (Some ''123'') ''1980'']))
      False example_profile example_player) = Some ''5'' \<and>
   fide_change (process_player
      (download_and_parse_fide_xml (example_feed [example_entry (Some ''123'') ''2000'']))
      (download_and_parse_fide_xml (example_feed [example_entry (Some ''123'') ''1980'']))
      False example_profile example_player) = Some ''+20'' \<and>
   fide_change (process_player
      (download_and_parse_fide_xml (example_feed [example_entry (Some ''123'') ''2000'']))
      (download_and_parse_fide_xml (example_feed [example_entry (Some ''123'') ''2020'']))
      False example_profile example_player) = Some ''-20'' \<and>
   fide_change (process_player
      (download_and_parse_fide_xml (example_feed [example_entry (Some ''123'') ''2000'']))
      (download_and_parse_fide_xml (example_feed [example_entry (Some ''123'') ''2000'']))
      False example_profile example_player) = Some ''0'' \<and>
   fide_change (process_player
      (download_and_parse_fide_xml (example_feed [example_entry (Some ''123'') ''2000'']))
      (download_and_parse_fide_xml (example_feed [example_entry (Some ''456'') ''1980'']))
      False example_profile example_player) = Some ''0''"
  using fide_fields_populated [where r = example_row and p = example_player
      and cur_resp = "example_feed [example_entry (Some ''123'') ''2000'']"
      and prev_resp = "example_feed [example_entry (Some ''123'') ''1980'']"
      and re_bound = False and pg = example_profile
      and fid = "''123''" and curr_rec = "example_record 2000"
      and prev_rec = "example_record 1980"]
    fide_fields_populated [where r = example_row and p = example_player
      and cur_resp = "example_feed [example_entry (Some ''123'') ''2000'']"
      and prev_resp = "example_feed [example_entry (Some ''123'') ''2020'']"
      and re_bound = False and pg = example_profile
      and fid = "''123''" and curr_rec = "example_record 2000"
      and prev_rec = "example_record 2020"]
    fide_fields_populated [where r = example_row and p = example_player
      and cur_resp = "example_feed [example_entry (Some ''123'') ''2000'']"
      and prev_resp = "example_feed [example_entry (Some ''123'') ''2000'']"
      and re_bound = False and pg = example_profile
      and fid = "''123''" and curr_rec = "example_record 2000"
      and prev_rec = "example_record 2000"]
    fide_fields_populated [where r = example_row and p = example_player
      and cur_resp = "example_feed [example_entry (Some ''123'') ''2000'']"
      and prev_resp = "example_feed [example_entry (Some ''456'') ''1980'']"
      and re_bound = False and pg = example_profile
      and fid = "''123''" and curr_rec = "example_record 2000"]
    example_row_player example_profile_fide_id
  by (simp add: example_snapshots example_previous_snapshots example_record_def
      format_change_def example_texts)

text \<open>
  C2 as stated says that \<open>fide_change\<close> is present only when the previous list has the
  identifier with a positive rating. Here the identifier \<open>123\<close> is in the current list,
  the previous list is empty, and \<open>fide_change\<close> is present: it is \<open>"0"\<close>.
\<close>

theorem fide_change_set_without_previous_record:
  "download_and_parse_fide_xml (example_feed [example_entry (Some ''123'') ''2000'']) ''123''
     = Some (example_record 2000) \<and>
   download_and_parse_fide_xml (example_feed []) ''123'' = None \<and>
   fide_id (process_player
      (download_and_parse_fide_xml (example_feed [example_entry (Some ''123'') ''2000'']))
      (download_and_parse_fide_xml (example_feed []))
      False example_profile example_player) = Some ''123'' \<and>
   fide_change (process_player
      (download_and_parse_fide_xml (example_feed [example_entry (Some ''123'') ''2000'']))
      (download_and_parse_fide_xml (example_feed []))
      False example_profile example_player) = Some ''0''"
proof -
  have c: "download_and_parse_fide_xml (example_feed [example_entry (Some ''123'') ''2000''])
             ''123'' = Some (example_record 2000)"
    and e: "download_and_parse_fide_xml (example_feed []) ''123'' = None"
    by (simp_all add: example_snapshots)
  note m = matched_with_parsed_lists [OF example_player_fields(4) example_profile_fide_id c,
      where prev_resp = "example_feed []" and re_bound = False]
  have "fide_change (process_player
      (download_and_parse_fide_xml (example_feed [example_entry (Some ''123'') ''2000'']))
      (download_and_parse_fide_xml (example_feed []))
      False example_profile example_player) = Some ''0''"
    unfolding m by (simp add: e)
  with c e example_profile_fide_id show ?thesis by simp
qed

text \<open>
  C1 at a previous rating of 0. The identifier \<open>123\<close> is in both lists, with the rating
  2000 in the current one and the rating 0 in the previous one. The claim gives
  \<open>fide_change\<close> the value \<open>"0"\<close>; the code assigns \<open>"0"\<close> only in the branch for an
  identifier that the previous list lacks, so here no branch assigns the key: it stays
  absent, and the log line that reads it raises \<open>KeyError\<close>.
\<close>

theorem fide_change_unset_for_previous_rating_zero:
  "download_and_parse_fide_xml (example_feed [example_entry (Some ''123'') ''2000'']) ''123''
     = Some (example_record 2000) \<and>
   download_and_parse_fide_xml (example_feed [example_entry (Some ''123'') ''0'']) ''123''
     = Some (example_record 0) \<and>
   rating (example_record 0) = 0 \<and>
   fide_id (process_player
      (download_and_parse_fide_xml (example_feed [example_entry (Some ''123'') ''2000'']))
      (download_and_parse_fide_xml (example_feed [example_entry (Some ''123'') ''0'']))
      False example_profile example_player) = Some ''123'' \<and>
   fide_rating (process_player
      (download_and_parse_fide_xml (example_feed [example_entry (Some ''123'') ''2000'']))
      (download_and_parse_fide_xml (example_feed [example_entry (Some ''123'') ''0'']))
      False example_profile example_player) = Some ''2000'' \<and>
   fide_change (process_player
      (download_and_parse_fide_xml (example_feed [example_entry (Some ''123'') ''2000'']))
      (download_and_parse_fide_xml (example_feed [example_entry (Some ''123'') ''0'']))
      False example_profile example_player) = None \<and>
   fst (fide_step
      (download_and_parse_fide_xml (example_feed [example_entry (Some ''123'') ''2000'']))
      (download_and_parse_fide_xml (example_feed [example_entry (Some ''123'') ''0'']))
      True example_profile (snd (knsb_stats example_profile example_player))) = Some KeyError"
proof -
  have c: "download_and_parse_fide_xml (example_feed [example_entry (Some ''123'') ''2000''])
             ''123'' = Some (example_record 2000)"
    and e: "download_and_parse_fide_xml (example_feed [example_entry (Some ''123'') ''0''])
             ''123'' = Some (example_record 0)"
    by (simp_all add: example_snapshots)
  have z: "rating (example_record 0) = 0" by (simp add: example_record_def)
  note m = matched_with_parsed_lists [OF example_player_fields(4) example_profile_fide_id c,
      where prev_resp = "example_feed [example_entry (Some ''123'') ''0'']" and re_bound = False]
  have k: "fide_change (snd (knsb_stats example_profile example_player)) = None"
    by (simp add: knsb_stats_frame example_player_def)
  have r: "fide_rating (process_player
      (download_and_parse_fide_xml (example_feed [example_entry (Some ''123'') ''2000'']))
      (download_and_parse_fide_xml (example_feed [example_entry (Some ''123'') ''0'']))
      False example_profile example_player) = Some ''2000''"
    unfolding m by (simp add: e z example_record_def example_texts)
  have f: "fide_change (process_player
      (download_and_parse_fide_xml (example_feed [example_entry (Some ''123'') ''2000'']))
      (download_and_parse_fide_xml (example_feed [example_entry (Some ''123'') ''0'']))
      False example_profile example_player) = None"
    unfolding m by (simp add: e z k)
  have p: "process_player
      (download_and_parse_fide_xml (example_feed [example_entry (Some ''123'') ''2000'']))
      (download_and_parse_fide_xml (example_feed [example_entry (Some ''123'') ''0'']))
      False example_profile example_player =
    snd (match_fide
      (download_and_parse_fide_xml (example_feed [example_entry (Some ''123'') ''2000'']))
      (download_and_parse_fide_xml (example_feed [example_entry (Some ''123'') ''0'']))
      ''123'' (snd (knsb_stats example_profile example_player)))"
    by (rule process_player_fide_id(1) [OF example_profile_facts(1,3,4) example_link_id])
  note g = download_record_range [OF c] download_record_range [OF e]
  have b1: "\<bar>rating (example_record 2000)\<bar> < 10 ^ int_max_str_digits"
    and b2: "\<bar>games (example_record 2000)\<bar> < 10 ^ int_max_str_digits"
    using g(1) by linarith+
  have b3: "\<bar>rating (example_record 2000) - rating prev_rec\<bar> < 10 ^ int_max_str_digits"
    if "download_and_parse_fide_xml (example_feed [example_entry (Some ''123'') ''0''])
          ''123'' = Some prev_rec" for prev_rec
  proof -
    from that e have pr: "prev_rec = example_record 0" by simp
    show ?thesis unfolding pr using g by linarith
  qed
  have "fst (match_fide
      (download_and_parse_fide_xml (example_feed [example_entry (Some ''123'') ''2000'']))
      (download_and_parse_fide_xml (example_feed [example_entry (Some ''123'') ''0'']))
      ''123'' (snd (knsb_stats example_profile example_player))) = Some KeyError"
    using f
    by (subst match_fide_in_range_error
          [where current_fide = "download_and_parse_fide_xml
                   (example_feed [example_entry (Some ''123'') ''2000''])",
           OF c b1 b2 b3]) (simp_all add: p)
  then have x: "fst (fide_step
      (download_and_parse_fide_xml (example_feed [example_entry (Some ''123'') ''2000'']))
      (download_and_parse_fide_xml (example_feed [example_entry (Some ''123'') ''0'']))
      True example_profile (snd (knsb_stats example_profile example_player))) = Some KeyError"
    using example_link_id by (simp add: fide_step_def example_profile_facts)
  from c e z example_profile_fide_id r f x show ?thesis by simp
qed

section \<open>A feed that cannot be obtained or parsed\<close>

lemma unmatched_fields:
  "fide_rating (process_player Map.empty prev_fide re_bound pg p) = fide_rating p \<and>
   fide_games (process_player Map.empty prev_fide re_bound pg p) = fide_games p \<and>
   fide_change (process_player Map.empty prev_fide re_bound pg p) = fide_change p"
  by (simp add: process_player_def fide_step_def match_fide_def knsb_stats_frame
      split: option.splits)

text \<open>
  C8. \<open>download_and_parse_fide_xml\<close> returns the empty snapshot when the request raises,
  when the status is not 200, when the body is not an archive, when the archive has no
  member whose name ends with \<open>.xml\<close>, when that member is not well-formed, and whenever
  anything else in the body of the function raises: its result is a snapshot in every
  case, never an exception. With the empty snapshot as the current list no player made
  from a roster row gets \<open>fide_rating\<close>, \<open>fide_games\<close> or \<open>fide_change\<close>; with the empty
  snapshot as the previous list a player found in the current list gets the change
  \<open>"0"\<close>.
\<close>

theorem feed_failure_gives_empty_snapshot:
  "download_and_parse_fide_xml NoResponse = Map.empty \<and>
   (status_code \<noteq> 200 \<longrightarrow>
      download_and_parse_fide_xml (Response status_code content) = Map.empty) \<and>
   download_and_parse_fide_xml (Response status_code BadArchive) = Map.empty \<and>
   (filter (\<lambda>nm. endswith nm ''.xml'') (map fst members) = [] \<longrightarrow>
      download_and_parse_fide_xml (Response status_code (Archive members)) = Map.empty) \<and>
   (filter (\<lambda>nm. endswith nm ''.xml'') (map fst members) = xml_filename # others \<and>
    map_of (rev members) xml_filename = Some Malformed \<longrightarrow>
      download_and_parse_fide_xml (Response status_code (Archive members)) = Map.empty) \<and>
   (parse_feed resp = Inl e \<longrightarrow> download_and_parse_fide_xml resp = Map.empty) \<and>
   (parse_feed resp = Inl e \<and> row_player r = Some p \<longrightarrow>
      fide_rating (process_player (download_and_parse_fide_xml resp) prev_fide re_bound pg p)
        = None \<and>
      fide_games (process_player (download_and_parse_fide_xml resp) prev_fide re_bound pg p)
        = None \<and>
      fide_change (process_player (download_and_parse_fide_xml resp) prev_fide re_bound pg p)
        = None) \<and>
   (parse_feed resp = Inl e \<and> row_player r = Some p \<and>
    fide_id (process_player (download_and_parse_fide_xml cur_resp)
               (download_and_parse_fide_xml resp) re_bound pg p) = Some fid \<and>
    download_and_parse_fide_xml cur_resp fid = Some curr_rec \<longrightarrow>
      fide_change (process_player (download_and_parse_fide_xml cur_resp)
                     (download_and_parse_fide_xml resp) re_bound pg p) = Some ''0'')"
proof (intro conjI impI)
  show "download_and_parse_fide_xml NoResponse = Map.empty"
    by (simp add: download_and_parse_fide_xml_def parse_feed_def)
  show "download_and_parse_fide_xml (Response status_code BadArchive) = Map.empty"
    by (simp add: download_and_parse_fide_xml_def parse_feed_def)
next
  assume "status_code \<noteq> 200"
  then show "download_and_parse_fide_xml (Response status_code content) = Map.empty"
    by (simp add: download_and_parse_fide_xml_def parse_feed_def)
next
  assume "filter (\<lambda>nm. endswith nm ''.xml'') (map fst members) = []"
  then show "download_and_parse_fide_xml (Response status_code (Archive members)) = Map.empty"
    by (simp add: download_and_parse_fide_xml_def parse_feed_def)
next
  assume "filter (\<lambda>nm. endswith nm ''.xml'') (map fst members) = xml_filename # others \<and>
    map_of (rev members) xml_filename = Some Malformed"
  then show "download_and_parse_fide_xml (Response status_code (Archive members)) = Map.empty"
    by (simp add: download_and_parse_fide_xml_def parse_feed_def)
next
  assume "parse_feed resp = Inl e"
  then show "download_and_parse_fide_xml resp = Map.empty"
    by (simp add: download_and_parse_fide_xml_def)
next
  assume a: "parse_feed resp = Inl e \<and> row_player r = Some p"
  then have d: "download_and_parse_fide_xml resp = Map.empty"
    by (simp add: download_and_parse_fide_xml_def)
  note u = unmatched_fields [of prev_fide re_bound pg p] row_player_defaults [of r p]
  show "fide_rating (process_player (download_and_parse_fide_xml resp) prev_fide re_bound pg p)
        = None" using a u by (simp add: d)
  show "fide_games (process_player (download_and_parse_fide_xml resp) prev_fide re_bound pg p)
        = None" using a u by (simp add: d)
  show "fide_change (process_player (download_and_parse_fide_xml resp) prev_fide re_bound pg p)
        = None" using a u by (simp add: d)
next
  assume a: "parse_feed resp = Inl e \<and> row_player r = Some p \<and>
    fide_id (process_player (download_and_parse_fide_xml cur_resp)
               (download_and_parse_fide_xml resp) re_bound pg p) = Some fid \<and>
    download_and_parse_fide_xml cur_resp fid = Some curr_rec"
  then have d: "download_and_parse_fide_xml resp fid = None"
    by (simp add: download_and_parse_fide_xml_def)
  from a have n: "fide_id p = None" using row_player_defaults [of r p] by simp
  from a have i: "fide_id (process_player (download_and_parse_fide_xml cur_resp)
               (download_and_parse_fide_xml resp) re_bound pg p) = Some fid"
    and c: "download_and_parse_fide_xml cur_resp fid = Some curr_rec" by simp_all
  note m = matched_with_parsed_lists [OF n i c]
  show "fide_change (process_player (download_and_parse_fide_xml cur_resp)
                     (download_and_parse_fide_xml resp) re_bound pg p) = Some ''0''"
    unfolding m by (simp add: d)
qed

theorem feed_failure_gives_empty_snapshot_witness:
  "download_and_parse_fide_xml (Response 404 (Archive [])) = Map.empty \<and>
   download_and_parse_fide_xml (Response 200 (Archive [(''readme.txt'', Malformed)])) = Map.empty \<and>
   download_and_parse_fide_xml (Response 200 (Archive [(''list.xml'', Malformed)])) = Map.empty \<and>
   parse_feed (example_feed [example_entry_without_fideid]) = Inl AttributeError \<and>
   download_and_parse_fide_xml (example_feed [example_entry_without_fideid]) = Map.empty \<and>
   fide_rating (process_player
      (download_and_parse_fide_xml (example_feed [example_entry_without_fideid])) Map.empty
      False example_profile example_player) = None \<and>
   fide_change (process_player
      (download_and_parse_fide_xml (example_feed [example_entry (Some ''123'') ''2000'']))
      (download_and_parse_fide_xml (example_feed [example_entry_without_fideid]))
      False example_profile example_player) = Some ''0''"
proof -
  have f: "parse_feed (example_feed [example_entry_without_fideid]) = Inl AttributeError"
    by (simp add: parse_feed_def example_feed_def endswith_def findall_def parse_player_def
        child_text_def find_child_def bindE_def example_entry_without_fideid_def)
  have n: "filter (\<lambda>nm. endswith nm ''.xml'') (map fst [(''readme.txt'', Malformed)]) = []"
    and x: "filter (\<lambda>nm. endswith nm ''.xml'') (map fst [(''list.xml'', Malformed)])
              = ''list.xml'' # []"
    by (simp_all add: endswith_def)
  have h1: "parse_feed (example_feed [example_entry_without_fideid]) = Inl AttributeError \<and>
            row_player example_row = Some example_player"
    using f example_row_player by simp
  have h2: "parse_feed (example_feed [example_entry_without_fideid]) = Inl AttributeError \<and>
            row_player example_row = Some example_player \<and>
            fide_id (process_player
              (download_and_parse_fide_xml (example_feed [example_entry (Some ''123'') ''2000'']))
              (download_and_parse_fide_xml (example_feed [example_entry_without_fideid]))
              False example_profile example_player) = Some ''123'' \<and>
            download_and_parse_fide_xml (example_feed [example_entry (Some ''123'') ''2000''])
              ''123'' = Some (example_record 2000)"
    using f example_row_player example_profile_fide_id by (simp add: example_snapshots)
  have h3: "(404::int) \<noteq> 200" by simp
  from feed_failure_gives_empty_snapshot [where status_code = 404 and content = "Archive []"
      and members = "[(''readme.txt'', Malformed)]" and xml_filename = "[]" and others = "[]"
      and resp = "example_feed [example_entry_without_fideid]" and e = AttributeError
      and r = example_row and p = example_player and prev_fide = Map.empty
      and re_bound = False and pg = example_profile
      and cur_resp = "example_feed [example_entry (Some ''123'') ''2000'']"
      and fid = "''123''" and curr_rec = "example_record 2000"] h1 h2 h3 f
  have a: "download_and_parse_fide_xml (Response 404 (Archive [])) = Map.empty \<and>
     download_and_parse_fide_xml (example_feed [example_entry_without_fideid]) = Map.empty \<and>
     fide_rating (process_player
        (download_and_parse_fide_xml (example_feed [example_entry_without_fideid])) Map.empty
        False example_profile example_player) = None \<and>
     fide_change (process_player
        (download_and_parse_fide_xml (example_feed [example_entry (Some ''123'') ''2000'']))
        (download_and_parse_fide_xml (example_feed [example_entry_without_fideid]))
        False example_profile example_player) = Some ''0''"
    by blast
  from feed_failure_gives_empty_snapshot [where status_code = 200
      and members = "[(''readme.txt'', Malformed)]" and xml_filename = "[]" and others = "[]"] n
  have b: "download_and_parse_fide_xml (Response 200 (Archive [(''readme.txt'', Malformed)]))
             = Map.empty" by simp
  from feed_failure_gives_empty_snapshot [where status_code = 200
      and members = "[(''list.xml'', Malformed)]" and xml_filename = "''list.xml''"
      and others = "[]"] x
  have c: "download_and_parse_fide_xml (Response 200 (Archive [(''list.xml'', Malformed)]))
             = Map.empty" by simp
  from a b c f show ?thesis by blast
qed

section \<open>Properties of the address of the previous list\<close>

lemma lower_months:
  "map lower [''Jan'', ''Feb'', ''Mar'', ''Apr'', ''May'', ''Jun'',
              ''Jul'', ''Aug'', ''Sep'', ''Oct'', ''Nov'', ''Dec''] =
     [''jan'', ''feb'', ''mar'', ''apr'', ''may'', ''jun'',
      ''jul'', ''aug'', ''sep'', ''oct'', ''nov'', ''dec'']"
  by code_simp

lemma month_cases:
  assumes "1 \<le> (m::int)" and "m \<le> 12"
  shows "m = 1 \<or> m = 2 \<or> m = 3 \<or> m = 4 \<or> m = 5 \<or> m = 6 \<or> m = 7 \<or> m = 8 \<or> m = 9 \<or>
         m = 10 \<or> m = 11 \<or> m = 12"
  using assms by presburger

lemma previous_period_url_month:
  assumes "month today = m" and "m \<in> {2, 3, 4, 5, 6, 7, 8, 9, 10, 11, 12}"
  shows "get_previous_period_url today =
           Inr (''https://ratings.fide.com/download/standard_'' @
                previous_period_tag (year today) (month today) @ ''frl_xml.zip'')"
  using assms lower_months
  by (auto simp: get_previous_period_url_def minus_one_day_def bindE_def Let_def
      strftime_b_def strftime_y_def previous_period_tag_def)

lemma previous_period_url_january:
  assumes "month today = 1"
  shows "get_previous_period_url today =
           (if year today > 1
            then Inr (''https://ratings.fide.com/download/standard_'' @
                previous_period_tag (year today) (month today) @ ''frl_xml.zip'')
            else Inl OverflowError)"
  using assms lower_months
  by (simp add: get_previous_period_url_def minus_one_day_def bindE_def Let_def
      strftime_b_def strftime_y_def previous_period_tag_def)

text \<open>
  C9. For every date, the address is the fixed template around the tag of the month
  before: the month's three-letter abbreviation in lower case and the last two digits of
  its year, where the month before January of the year Y is December of the year Y - 1.
  The tag is \<open>previous_period_tag\<close>, written from the words of the specification; the
  function computes it by stepping from the first day of the month one day back. Only in
  January of the year 1, which no clock gives, is there no day before the first of the
  month, and the subtraction raises \<open>OverflowError\<close>.
\<close>

theorem previous_period_url:
  assumes "valid_date today"
  shows "get_previous_period_url today =
           (if year today = 1 \<and> month today = 1 then Inl OverflowError
            else Inr (''https://ratings.fide.com/download/standard_'' @
                      previous_period_tag (year today) (month today) @ ''frl_xml.zip''))"
proof (cases "month today = 1")
  case True
  have "1 \<le> year today" using assms by (simp add: valid_date_def)
  then show ?thesis using previous_period_url_january [OF True] True by auto
next
  case False
  have "1 \<le> month today" "month today \<le> 12" using assms by (simp_all add: valid_date_def)
  from month_cases [OF this] False
  have "month today \<in> {2, 3, 4, 5, 6, 7, 8, 9, 10, 11, 12}" by auto
  from previous_period_url_month [OF refl this] False show ?thesis by simp
qed

lemma example_tags:
  "previous_period_tag 2026 1 = ''dec25''" "previous_period_tag 2026 11 = ''oct26''"
  "previous_period_tag 2024 3 = ''feb24''" "previous_period_tag 2000 1 = ''dec99''"
  by code_simp+

theorem previous_period_url_witness:
  "valid_date \<lparr>year = 2026, month = 1, day = 15\<rparr> \<and>
   get_previous_period_url \<lparr>year = 2026, month = 1, day = 15\<rparr> =
     Inr ''https://ratings.fide.com/download/standard_dec25frl_xml.zip'' \<and>
   get_previous_period_url \<lparr>year = 2026, month = 11, day = 4\<rparr> =
     Inr ''https://ratings.fide.com/download/standard_oct26frl_xml.zip'' \<and>
   get_previous_period_url \<lparr>year = 2024, month = 3, day = 31\<rparr> =
     Inr ''https://ratings.fide.com/download/standard_feb24frl_xml.zip'' \<and>
   get_previous_period_url \<lparr>year = 2000, month = 1, day = 1\<rparr> =
     Inr ''https://ratings.fide.com/download/standard_dec99frl_xml.zip''"
  using previous_period_url [of "\<lparr>year = 2026, month = 1, day = 15\<rparr>"]
    previous_period_url [of "\<lparr>year = 2026, month = 11, day = 4\<rparr>"]
    previous_period_url [of "\<lparr>year = 2024, month = 3, day = 31\<rparr>"]
    previous_period_url [of "\<lparr>year = 2000, month = 1, day = 1\<rparr>"]
  by (simp add: valid_date_def days_in_month_def is_leap_def example_tags)

end
